theory Spec2Isabelle
  imports Main "HOL-Library.AList" "HOL-Library.Sublist"
begin

section \<open>JavaScript values\<close>

text \<open>
  The front end is untyped JavaScript working on JSON documents, so the embedding has one
  type of values.  Numbers are integers: the only numbers the modelled code touches are
  ids, HTTP status codes and the 0/1 feedback flag.  An object is the list of its own
  properties in insertion order; a well-formed object has no key twice.
\<close>

datatype jsval =
    JUndefined | JNull | JBool bool | JNum int | JStr string
  | JArr "jsval list" | JObj "(string \<times> jsval) list"

datatype js_error = TypeError | SyntaxError | NetworkError

text \<open>ToBoolean, and the operators \<open>a || b\<close> and \<open>a ?? b\<close>.\<close>

fun truthy :: "jsval \<Rightarrow> bool" where
  "truthy JUndefined = False"
| "truthy JNull = False"
| "truthy (JBool b) = b"
| "truthy (JNum n) = (n \<noteq> 0)"
| "truthy (JStr s) = (s \<noteq> [])"
| "truthy (JArr xs) = True"
| "truthy (JObj kvs) = True"

definition js_or :: "jsval \<Rightarrow> jsval \<Rightarrow> jsval" where
  "js_or a b = (if truthy a then a else b)"

definition nullish :: "jsval \<Rightarrow> bool" where
  "nullish v = (v = JUndefined \<or> v = JNull)"

text \<open>
  \<open>a === b\<close> on primitives.  On arrays and objects JavaScript compares references, which
  this value model does not carry; ids are primitives (the schema's INTEGER PRIMARY KEY),
  and two values parsed from JSON are never the same reference.
\<close>

fun strict_eq :: "jsval \<Rightarrow> jsval \<Rightarrow> bool" where
  "strict_eq (JArr xs) b = False"
| "strict_eq (JObj kvs) b = False"
| "strict_eq a b = (a = b)"

text \<open>ToString, as template literals, \<open>alert\<close> and \<open>new Error\<close> apply it.\<close>

fun show_nat :: "nat \<Rightarrow> string" where
  "show_nat n =
     (if n < 10 then [''0123456789'' ! n]
      else show_nat (n div 10) @ [''0123456789'' ! (n mod 10)])"

declare show_nat.simps [simp del]

fun join :: "string \<Rightarrow> string list \<Rightarrow> string" where
  "join sep [] = []"
| "join sep [x] = x"
| "join sep (x # y # ys) = x @ sep @ join sep (y # ys)"

fun to_string :: "jsval \<Rightarrow> string" where
  "to_string JUndefined = ''undefined''"
| "to_string JNull = ''null''"
| "to_string (JBool b) = (if b then ''true'' else ''false'')"
| "to_string (JNum n) = (if n < 0 then CHR ''-'' # show_nat (nat (- n)) else show_nat (nat n))"
| "to_string (JStr s) = s"
| "to_string (JArr xs) =
     join '','' (map (\<lambda>x. if x = JUndefined \<or> x = JNull then [] else to_string x) xs)"
| "to_string (JObj kvs) = ''[object Object]''"

text \<open>
  Own enumerable properties, as object spread \<open>{...v}\<close> copies them, and property
  reads \<open>v.k\<close> and \<open>v?.k\<close>.  Reading a property of \<open>undefined\<close> or \<open>null\<close> throws a
  TypeError.  Inherited built-in methods are not modelled: no key the source reads names
  one, and calling a method a value does not have is written out as a TypeError where
  the source calls \<open>.map\<close> and \<open>.find\<close>.
\<close>

fun own_props :: "jsval \<Rightarrow> (string \<times> jsval) list" where
  "own_props (JObj kvs) = kvs"
| "own_props (JArr xs) = zip (map show_nat [0..<length xs]) xs"
| "own_props (JStr s) = zip (map show_nat [0..<length s]) (map (\<lambda>c. JStr [c]) s)"
| "own_props v = []"

definition lookup :: "(string \<times> jsval) list \<Rightarrow> string \<Rightarrow> jsval" where
  "lookup kvs k = (case map_of kvs k of None \<Rightarrow> JUndefined | Some v \<Rightarrow> v)"

fun get_prop :: "jsval \<Rightarrow> string \<Rightarrow> js_error + jsval" where
  "get_prop JUndefined k = Inl TypeError"
| "get_prop JNull k = Inl TypeError"
| "get_prop (JArr xs) k =
     Inr (if k = ''length'' then JNum (int (length xs)) else lookup (own_props (JArr xs)) k)"
| "get_prop (JStr s) k =
     Inr (if k = ''length'' then JNum (int (length s)) else lookup (own_props (JStr s)) k)"
| "get_prop v k = Inr (lookup (own_props v) k)"

definition opt_get :: "jsval \<Rightarrow> string \<Rightarrow> jsval" where
  "opt_get v k = (case get_prop v k of Inl e \<Rightarrow> JUndefined | Inr x \<Rightarrow> x)"

text \<open>
  \<open>{...a, ...b}\<close>: the properties of \<open>a\<close>, then those of \<open>b\<close> in order, a key already
  present keeping its place and taking the new value.
\<close>

definition spread2 :: "jsval \<Rightarrow> jsval \<Rightarrow> (string \<times> jsval) list" where
  "spread2 a b = fold (\<lambda>(k, v). AList.update k v) (own_props b) (own_props a)"

text \<open>\<open>xs.map(f)\<close> for an \<open>f\<close> that may throw: the first exception ends the loop.\<close>

fun map_throw :: "('a \<Rightarrow> js_error + 'b) \<Rightarrow> 'a list \<Rightarrow> js_error + 'b list" where
  "map_throw f [] = Inr []"
| "map_throw f (x # xs) =
     (case f x of
        Inl e \<Rightarrow> Inl e
      | Inr y \<Rightarrow> (case map_throw f xs of Inl e \<Rightarrow> Inl e | Inr ys \<Rightarrow> Inr (y # ys)))"

text \<open>
  Strings.  A \<^typ>\<open>string\<close> holds the UTF-8 encoding of the JavaScript string, one \<^typ>\<open>char\<close> per
  byte: the no-break space U+00A0 is the two bytes C2 A0, and the characters of the prompts
  and messages below, all ASCII, are one byte each.

  \<open>white_space\<close> lists the encodings of the code points that \<open>String.prototype.trim\<close> strips,
  ECMAScript's WhiteSpace and LineTerminator: U+0009 TAB, U+000A LF, U+000B VT, U+000C FF,
  U+000D CR, U+0020 SPACE, U+00A0 NO-BREAK SPACE, U+1680 OGHAM SPACE MARK, U+2000 to U+200A
  (the widths of space), U+2028 LINE SEPARATOR, U+2029 PARAGRAPH SEPARATOR, U+202F NARROW
  NO-BREAK SPACE, U+205F MEDIUM MATHEMATICAL SPACE, U+3000 IDEOGRAPHIC SPACE and U+FEFF
  ZERO WIDTH NO-BREAK SPACE.  The Unicode class Zs (U+0020, U+00A0, U+1680, U+2000 to
  U+200A, U+202F, U+205F, U+3000) is among them in full.
\<close>

definition white_space :: "string list" where
  "white_space =
     [[CHR 0x09], [CHR 0x0A], [CHR 0x0B], [CHR 0x0C], [CHR 0x0D], [CHR 0x20],
      [CHR 0xC2, CHR 0xA0],
      [CHR 0xE1, CHR 0x9A, CHR 0x80],
      [CHR 0xE2, CHR 0x80, CHR 0x80], [CHR 0xE2, CHR 0x80, CHR 0x81],
      [CHR 0xE2, CHR 0x80, CHR 0x82], [CHR 0xE2, CHR 0x80, CHR 0x83],
      [CHR 0xE2, CHR 0x80, CHR 0x84], [CHR 0xE2, CHR 0x80, CHR 0x85],
      [CHR 0xE2, CHR 0x80, CHR 0x86], [CHR 0xE2, CHR 0x80, CHR 0x87],
      [CHR 0xE2, CHR 0x80, CHR 0x88], [CHR 0xE2, CHR 0x80, CHR 0x89],
      [CHR 0xE2, CHR 0x80, CHR 0x8A],
      [CHR 0xE2, CHR 0x80, CHR 0xA8], [CHR 0xE2, CHR 0x80, CHR 0xA9],
      [CHR 0xE2, CHR 0x80, CHR 0xAF],
      [CHR 0xE2, CHR 0x81, CHR 0x9F],
      [CHR 0xE3, CHR 0x80, CHR 0x80],
      [CHR 0xEF, CHR 0xBB, CHR 0xBF]]"

text \<open>The white space of one, two and three bytes.\<close>

definition is_space :: "char \<Rightarrow> bool" where
  "is_space c = (c \<in> set [CHR 0x09, CHR 0x0A, CHR 0x0B, CHR 0x0C, CHR 0x0D, CHR 0x20])"

definition is_space2 :: "char \<Rightarrow> char \<Rightarrow> bool" where
  "is_space2 a b = ([a, b] \<in> set white_space)"

definition is_space3 :: "char \<Rightarrow> char \<Rightarrow> char \<Rightarrow> bool" where
  "is_space3 a b c = ([a, b, c] \<in> set white_space)"

text \<open>
  The loop of \<open>trim\<close>: white-space code points are dropped from the front for as long as
  there is one; \<open>two\<close> and \<open>three\<close> recognise those of two and three bytes.
\<close>

fun strip_spaces ::
  "(char \<Rightarrow> char \<Rightarrow> bool) \<Rightarrow> (char \<Rightarrow> char \<Rightarrow> char \<Rightarrow> bool) \<Rightarrow> string \<Rightarrow> string" where
  "strip_spaces two three (a # b # c # s) =
     (if is_space a then strip_spaces two three (b # c # s)
      else if two a b then strip_spaces two three (c # s)
      else if three a b c then strip_spaces two three s
      else a # b # c # s)"
| "strip_spaces two three [a, b] =
     (if is_space a then strip_spaces two three [b]
      else if two a b then []
      else [a, b])"
| "strip_spaces two three [a] = (if is_space a then [] else [a])"
| "strip_spaces two three [] = []"

text \<open>
  \<open>String.prototype.trimStart\<close>, \<open>trimEnd\<close> (the same loop from the last byte backwards, a
  code point's bytes then met in reverse) and \<open>trim\<close>, which strips both ends.
\<close>

definition trimStart :: "string \<Rightarrow> string" where
  "trimStart s = strip_spaces is_space2 is_space3 s"

definition trimEnd :: "string \<Rightarrow> string" where
  "trimEnd s =
     rev (strip_spaces (\<lambda>a b. is_space2 b a) (\<lambda>a b c. is_space3 c b a) (rev s))"

definition trim :: "string \<Rightarrow> string" where
  "trim s = trimEnd (trimStart s)"

text \<open>\<open>includes\<close>, and \<open>toUpperCase\<close> on the letters a-z.\<close>

fun includes_str :: "string \<Rightarrow> string \<Rightarrow> bool" where
  "includes_str [] t = (t = [])"
| "includes_str (c # s) t = (prefix t (c # s) \<or> includes_str s t)"

definition toUpperCase :: "string \<Rightarrow> string" where
  "toUpperCase s =
     map (\<lambda>c. if 97 \<le> (of_char c :: nat) \<and> (of_char c :: nat) \<le> 122
              then char_of ((of_char c :: nat) - 32) else c) s"

section \<open>The network, as the client sees it\<close>

text \<open>
  A \<open>fetch\<close> call is recorded as the request it sends; \<open>req_body\<close> is the value handed to
  \<open>JSON.stringify\<close>.  The server is not part of the client: every client function takes the
  network as a function from requests to outcomes.  \<open>json_body\<close> is what \<open>res.json()\<close>
  resolves to (\<open>None\<close>: it rejects), \<open>blob_body\<close> what \<open>res.blob()\<close> resolves to.
\<close>

record request =
  url :: string
  http_method :: string
  req_body :: "jsval option"

record response =
  status :: nat
  content_type :: "string option"
  json_body :: "jsval option"
  blob_body :: "string option"

datatype fetch_result = Rejected | Resolved response

definition ok :: "response \<Rightarrow> bool" where
  "ok res = (200 \<le> status res \<and> status res \<le> 299)"

definition API_BASE :: string where
  "API_BASE = ''https://ai-document-assistant-5o3z.onrender.com''"

section \<open>frontend/app.js\<close>

subsection \<open>loadUser and the root component\<close>

text \<open>
  \<open>JSON.parse\<close> is the platform's: \<open>loadUser\<close> takes it as a parameter, \<open>Inl\<close> when it throws.
  \<open>localStorage\<close> is a map from keys to strings; \<open>getItem\<close> answers \<open>null\<close> for an absent key.
\<close>

definition getItem :: "(string \<rightharpoonup> string) \<Rightarrow> string \<Rightarrow> jsval" where
  "getItem localStorage k = (case localStorage k of None \<Rightarrow> JNull | Some s \<Rightarrow> JStr s)"

definition loadUser :: "(string \<Rightarrow> js_error + jsval) \<Rightarrow> (string \<rightharpoonup> string) \<Rightarrow> jsval" where
  "loadUser JSON_parse localStorage =
     (case JSON_parse (to_string (js_or (getItem localStorage ''ai_user'') (JStr ''null''))) of
        Inl e \<Rightarrow> JNull
      | Inr user \<Rightarrow> user)"

text \<open>
  \<open>App\<close> starts with \<open>useState(loadUser())\<close> and \<open>currentDoc = null\<close>; it renders
  \<open>Login\<close> when \<open>!user\<close> and the dashboard otherwise.
\<close>

datatype screen = LoginScreen | DashboardScreen

definition App_start :: "(string \<Rightarrow> js_error + jsval) \<Rightarrow> (string \<rightharpoonup> string) \<Rightarrow> screen" where
  "App_start JSON_parse localStorage =
     (if \<not> truthy (loadUser JSON_parse localStorage) then LoginScreen else DashboardScreen)"

text \<open>
  What \<open>loadUser\<close> relies on from \<open>JSON.parse\<close> (ECMAScript): the text \<open>null\<close> parses to
  \<open>null\<close>, and the empty text is a SyntaxError.
\<close>

definition JSON_parse_facts :: "(string \<Rightarrow> js_error + jsval) \<Rightarrow> bool" where
  "JSON_parse_facts P = (P ''null'' = Inr JNull \<and> P [] = Inl SyntaxError)"

subsection \<open>DocumentView.updateSection\<close>

text \<open>
  The state updater passed to \<open>setCurrent\<close>:
  \<^verbatim>\<open>const next = { ...prev };
  next.sections = (next.sections || []).map((s) =>
    s.id === sectionId ? { ...s, ...changes } : s);\<close>
  \<open>.map\<close> exists on arrays only, and \<open>s.id\<close> throws on a \<open>null\<close> element.
\<close>

definition merge_section :: "jsval \<Rightarrow> jsval \<Rightarrow> jsval \<Rightarrow> js_error + jsval" where
  "merge_section sectionId changes s =
     (case get_prop s ''id'' of
        Inl e \<Rightarrow> Inl e
      | Inr i \<Rightarrow> Inr (if strict_eq i sectionId then JObj (spread2 s changes) else s))"

definition updateSection :: "jsval \<Rightarrow> jsval \<Rightarrow> jsval \<Rightarrow> js_error + jsval" where
  "updateSection prev sectionId changes =
     (let next = own_props prev in
      case js_or (lookup next ''sections'') (JArr []) of
        JArr ss \<Rightarrow>
          (case map_throw (merge_section sectionId changes) ss of
             Inl e \<Rightarrow> Inl e
           | Inr ss' \<Rightarrow> Inr (JObj (AList.update ''sections'' (JArr ss') next)))
      | other \<Rightarrow> Inl TypeError)"

subsection \<open>The state of a DocumentView with one SectionCard and the DownloadBar\<close>

text \<open>
  \<open>current\<close> is DocumentView's state; \<open>refinePrompt\<close>, \<open>loadingRefine\<close> are the card's.  The
  effects are kept as logs: the strings shown by \<open>alert\<close>, the requests sent by \<open>fetch\<close>, the
  files handed to the browser as downloads (file name and content).  An exception thrown by
  a state updater is not inside any \<open>try\<close> of the handlers: it is kept in \<open>crashed\<close>.
  \<open>console.error\<close> has no effect on any of this and is left out.
\<close>

record view =
  current :: jsval
  refinePrompt :: string
  loadingRefine :: bool
  alerts :: "string list"
  sent :: "request list"
  saved :: "(string \<times> string) list"
  crashed :: "js_error option"

definition alert :: "jsval \<Rightarrow> view \<Rightarrow> view" where
  "alert v st = st\<lparr>alerts := alerts st @ [to_string v]\<rparr>"

definition fetch :: "(request \<Rightarrow> fetch_result) \<Rightarrow> request \<Rightarrow> view \<Rightarrow> fetch_result \<times> view" where
  "fetch net req st = (net req, st\<lparr>sent := sent st @ [req]\<rparr>)"

definition onUpdated :: "jsval \<Rightarrow> jsval \<Rightarrow> view \<Rightarrow> view" where
  "onUpdated sectionId changes st =
     (case updateSection (current st) sectionId changes of
        Inl e \<Rightarrow> st\<lparr>crashed := Some e\<rparr>
      | Inr next \<Rightarrow> st\<lparr>current := next\<rparr>)"

subsection \<open>SectionCard.refine\<close>

text \<open>
  The body of the \<open>try\<close>: \<open>Inl\<close> is an exception together with the state reached when it
  was thrown, which the \<open>catch\<close> continues from.
\<close>

definition refine_request :: "jsval \<Rightarrow> jsval \<Rightarrow> string \<Rightarrow> request" where
  "refine_request sid txt p =
     \<lparr>url = API_BASE @ ''/api/sections/'' @ to_string sid @ ''/refine'',
      http_method = ''POST'',
      req_body = Some (JObj [(''prompt'', JStr p), (''current_text'', txt)])\<rparr>"

definition refine_try :: "(request \<Rightarrow> fetch_result) \<Rightarrow> jsval \<Rightarrow> view \<Rightarrow> (js_error \<times> view) + view" where
  "refine_try net sec st =
     (case get_prop sec ''id'' of
        Inl e \<Rightarrow> Inl (e, st)
      | Inr sid \<Rightarrow>
     (case get_prop sec ''text'' of
        Inl e \<Rightarrow> Inl (e, st)
      | Inr txt \<Rightarrow>
     (case fetch net (refine_request sid txt (refinePrompt st)) st of
        (Rejected, st') \<Rightarrow> Inl (NetworkError, st')
      | (Resolved res, st') \<Rightarrow>
     (case json_body res of
        None \<Rightarrow> Inl (SyntaxError, st')
      | Some data \<Rightarrow>
          if \<not> ok res then
            (case get_prop data ''error'' of
               Inl e \<Rightarrow> Inl (e, st')
             | Inr msg \<Rightarrow> Inr (alert (js_or msg (JStr ''Refine failed'')) st'))
          else
            (case get_prop data ''revised_text'' of
               Inl e \<Rightarrow> Inl (e, st')
             | Inr revised \<Rightarrow>
            (case get_prop data ''refinements'' of
               Inl e \<Rightarrow> Inl (e, st')
             | Inr history \<Rightarrow>
                 Inr ((onUpdated sid
                        (JObj [(''text'', revised), (''refinements'', history)]) st')
                      \<lparr>refinePrompt := []\<rparr>)))))))"

definition refine :: "(request \<Rightarrow> fetch_result) \<Rightarrow> jsval \<Rightarrow> view \<Rightarrow> view" where
  "refine net sec st =
     (if trim (refinePrompt st) = [] then alert (JStr ''Enter a refinement instruction'') st
      else
        let st1 = st\<lparr>loadingRefine := True\<rparr>;
            st2 = (case refine_try net sec st1 of
                     Inr s \<Rightarrow> s
                   | Inl (e, s) \<Rightarrow> alert (JStr ''Refine failed'') s)
        in st2\<lparr>loadingRefine := False\<rparr>)"

subsection \<open>SectionCard.sendFeedback\<close>



subsection \<open>DownloadBar.download\<close>

definition export_request :: "jsval \<Rightarrow> string \<Rightarrow> request" where
  "export_request documentId fmt =
     \<lparr>url = API_BASE @ ''/api/documents/'' @ to_string documentId @ ''/export?format='' @ fmt,
      http_method = ''GET'',
      req_body = None\<rparr>"

definition download_ext :: "string \<Rightarrow> string" where
  "download_ext fmt =
     (if fmt = ''pptx'' then ''pptx'' else if fmt = ''pdf'' then ''pdf'' else ''docx'')"

definition download :: "(request \<Rightarrow> fetch_result) \<Rightarrow> jsval \<Rightarrow> string \<Rightarrow> view \<Rightarrow> view" where
  "download net documentId fmt st =
     (case fetch net (export_request documentId fmt) st of
        (Rejected, st') \<Rightarrow> alert (JStr ''Download failed'') st'
      | (Resolved res, st') \<Rightarrow>
          if \<not> ok res then
            (let err = (case json_body res of None \<Rightarrow> JObj [] | Some d \<Rightarrow> d) in
             case get_prop err ''error'' of
               Inl e \<Rightarrow> alert (JStr ''Download failed'') st'
             | Inr msg \<Rightarrow>
                 alert (js_or msg (JStr (''Failed to download '' @ toUpperCase fmt))) st')
          else
            (case blob_body res of
               None \<Rightarrow> alert (JStr ''Download failed'') st'
             | Some bytes \<Rightarrow>
                 st'\<lparr>saved := saved st' @
                   [(''document-'' @ to_string documentId @ ''.'' @ download_ext fmt, bytes)]\<rparr>))"

section \<open>backend/frontend: RefinementEditor and services/api.js\<close>

subsection \<open>RefinementEditor.sendRefinement\<close>

text \<open>
  The editor's state: the document, the object of unsaved local edits (keyed by the
  section id as a property key), the loading flag, and the same effect logs as above.
\<close>

record editor =
  doc :: jsval
  localEdits :: "(string \<times> jsval) list"
  loading :: bool
  ed_alerts :: "string list"
  ed_sent :: "request list"
  ed_crashed :: "js_error option"

definition ed_alert :: "jsval \<Rightarrow> editor \<Rightarrow> editor" where
  "ed_alert v ed = ed\<lparr>ed_alerts := ed_alerts ed @ [to_string v]\<rparr>"

text \<open>\<open>doc.sections.find((s) => s.id === sectionId)\<close>\<close>

fun find_by_id :: "jsval \<Rightarrow> jsval list \<Rightarrow> js_error + jsval" where
  "find_by_id sectionId [] = Inr JUndefined"
| "find_by_id sectionId (s # ss) =
     (case get_prop s ''id'' of
        Inl e \<Rightarrow> Inl e
      | Inr i \<Rightarrow> if strict_eq i sectionId then Inr s else find_by_id sectionId ss)"

definition getSectionById :: "jsval \<Rightarrow> jsval \<Rightarrow> js_error + jsval" where
  "getSectionById d sectionId =
     (case get_prop d ''sections'' of
        Inl e \<Rightarrow> Inl e
      | Inr secs \<Rightarrow> (case secs of JArr ss \<Rightarrow> find_by_id sectionId ss | other \<Rightarrow> Inl TypeError))"

text \<open>\<open>localEdits[sectionId] ?? getSectionById(sectionId).text\<close>\<close>

definition current_text_of :: "editor \<Rightarrow> jsval \<Rightarrow> js_error + jsval" where
  "current_text_of ed sectionId =
     (let edit = lookup (localEdits ed) (to_string sectionId) in
      if \<not> nullish edit then Inr edit
      else (case getSectionById (doc ed) sectionId of
              Inl e \<Rightarrow> Inl e
            | Inr s \<Rightarrow> get_prop s ''text''))"

text \<open>
  The updater passed to \<open>setDoc\<close> on success:
  \<^verbatim>\<open>(d) => ({ ...d, sections: d.sections.map((s) => (s.id === sectionId
     ? { ...s, text: body.revised_text, refinements: body.refinements } : s)) })\<close>
\<close>

definition apply_revision :: "jsval \<Rightarrow> jsval \<Rightarrow> jsval \<Rightarrow> js_error + jsval" where
  "apply_revision sectionId body s =
     (case get_prop s ''id'' of
        Inl e \<Rightarrow> Inl e
      | Inr i \<Rightarrow>
          if strict_eq i sectionId then
            (case get_prop body ''revised_text'' of
               Inl e \<Rightarrow> Inl e
             | Inr revised \<Rightarrow>
            (case get_prop body ''refinements'' of
               Inl e \<Rightarrow> Inl e
             | Inr history \<Rightarrow>
                 Inr (JObj (spread2 s (JObj [(''text'', revised), (''refinements'', history)])))))
          else Inr s)"

definition apply_refinement :: "jsval \<Rightarrow> jsval \<Rightarrow> jsval \<Rightarrow> js_error + jsval" where
  "apply_refinement sectionId body d =
     (case get_prop d ''sections'' of
        Inl e \<Rightarrow> Inl e
      | Inr secs \<Rightarrow>
          (case secs of
             JArr ss \<Rightarrow>
               (case map_throw (apply_revision sectionId body) ss of
                  Inl e \<Rightarrow> Inl e
                | Inr ss' \<Rightarrow> Inr (JObj (AList.update ''sections'' (JArr ss') (own_props d))))
           | other \<Rightarrow> Inl TypeError))"

definition editor_refine_request :: "jsval \<Rightarrow> jsval \<Rightarrow> string \<Rightarrow> request" where
  "editor_refine_request sectionId cur p =
     \<lparr>url = ''/api/sections/'' @ to_string sectionId @ ''/refine'',
      http_method = ''POST'',
      req_body = Some (JObj [(''prompt'', JStr p), (''current_text'', cur)])\<rparr>"

definition sendRefinement_try ::
  "(request \<Rightarrow> fetch_result) \<Rightarrow> jsval \<Rightarrow> string \<Rightarrow> editor \<Rightarrow> (js_error \<times> editor) + editor" where
  "sendRefinement_try net sectionId p ed =
     (case current_text_of ed sectionId of
        Inl e \<Rightarrow> Inl (e, ed)
      | Inr cur \<Rightarrow>
          (let req = editor_refine_request sectionId cur p;
               ed' = ed\<lparr>ed_sent := ed_sent ed @ [req]\<rparr>
           in case net req of
                Rejected \<Rightarrow> Inl (NetworkError, ed')
              | Resolved res \<Rightarrow>
             (case json_body res of
                None \<Rightarrow> Inl (SyntaxError, ed')
              | Some body \<Rightarrow>
                  if ok res then
                    Inr ((case apply_refinement sectionId body (doc ed') of
                            Inl e \<Rightarrow> ed'\<lparr>ed_crashed := Some e\<rparr>
                          | Inr d' \<Rightarrow> ed'\<lparr>doc := d'\<rparr>)
                         \<lparr>localEdits := AList.delete (to_string sectionId) (localEdits ed')\<rparr>)
                  else
                    (case get_prop body ''error'' of
                       Inl e \<Rightarrow> Inl (e, ed')
                     | Inr msg \<Rightarrow> Inr (ed_alert (js_or msg (JStr ''Refinement failed'')) ed')))))"

definition sendRefinement :: "(request \<Rightarrow> fetch_result) \<Rightarrow> jsval \<Rightarrow> string \<Rightarrow> editor \<Rightarrow> editor" where
  "sendRefinement net sectionId p ed =
     (if p = [] then ed_alert (JStr ''Enter a refinement prompt.'') ed
      else
        let ed1 = ed\<lparr>loading := True\<rparr>;
            ed2 = (case sendRefinement_try net sectionId p ed1 of
                     Inr e' \<Rightarrow> e'
                   | Inl (e, e') \<Rightarrow> ed_alert (JStr ''Refinement request failed.'') e')
        in ed2\<lparr>loading := False\<rparr>)"

text \<open>
  The Refine button: \<open>sendRefinement(section.id, input.value.trim())\<close>.
\<close>

definition refine_click :: "(request \<Rightarrow> fetch_result) \<Rightarrow> jsval \<Rightarrow> string \<Rightarrow> editor \<Rightarrow> editor" where
  "refine_click net sectionId input ed = sendRefinement net sectionId (trim input) ed"

subsection \<open>services/api.js: handleResponse\<close>

text \<open>
  The thrown object is an \<open>Error\<close> with \<open>message\<close>, \<open>status\<close> and \<open>body\<close>.  The pages show
  \<open>String(err?.body?.detail || err.message)\<close>.
\<close>

record api_error =
  err_message :: string
  err_status :: nat
  err_body :: jsval

definition handleResponse :: "response \<Rightarrow> api_error + jsval" where
  "handleResponse res =
     (let contentType =
            js_or (case content_type res of None \<Rightarrow> JNull | Some c \<Rightarrow> JStr c) (JStr []);
          isJson = includes_str (to_string contentType) ''application/json'';
          body = (if isJson then (case json_body res of None \<Rightarrow> JNull | Some b \<Rightarrow> b)
                  else JNull)
      in if \<not> ok res then
           Inl \<lparr>err_message =
                  to_string (js_or (opt_get body ''detail'')
                    (js_or (opt_get body ''message'')
                       (JStr (''HTTP '' @ to_string (JNum (int (status res))))))),
                err_status = status res,
                err_body = body\<rparr>
         else Inr body)"

definition shown_error :: "api_error \<Rightarrow> string" where
  "shown_error err =
     to_string (js_or (opt_get (err_body err) ''detail'') (JStr (err_message err)))"

section \<open>The services behind the API\<close>

text \<open>
  The request handlers (the Flask application, \<open>backend/app.py\<close>) are not among the
  sources: only the schema that declares their tables and the clients that call them are.
  Every definition of this section is therefore written from the specification, sections
  3 and 4, and says so.
\<close>

text \<open>Modelled from the spec: the Refinement entity of section 3 (table \<open>refinements\<close>).\<close>

record refinement =
  ref_id :: nat
  ref_prompt :: string
  ref_revised_text :: string
  ref_created_at :: nat

text \<open>Modelled from the spec: the Comment entity of section 3 (table \<open>comments\<close>).\<close>

record comment_row =
  com_id :: nat
  com_comment :: string
  com_created_at :: nat

text \<open>
  Modelled from the spec: the Section entity of section 3 (table \<open>sections\<close>), owning its
  ordered list of Refinements and its Comments; \<open>last_feedback\<close> is tri-state.
\<close>

record section_row =
  sec_id :: nat
  document_id :: nat
  position :: nat
  heading :: string
  type_tag :: string
  sec_text :: string
  last_feedback :: "bool option"
  refinements :: "refinement list"
  comments :: "comment_row list"

text \<open>
  Modelled from the spec: the Document entity of section 3 (table \<open>documents\<close>) with its
  generation parameters.
\<close>

record document_row =
  doc_id :: nat
  title :: string
  owner :: string
  doc_created_at :: nat
  gen_prompt :: string
  gen_theme :: string
  gen_pages :: int

text \<open>
  Modelled from the spec: the Record Store of section 2, and beside it the number of calls
  made to the AI Text Provider so far.  Ids come from one counter.
\<close>

record backend =
  documents :: "document_row list"
  sections :: "section_row list"
  next_id :: nat
  provider_calls :: nat

text \<open>
  Modelled from the spec: the error taxonomy of section 7.  The spec words one message,
  that of the empty refinement prompt; where it gives none the message is left empty.
\<close>

datatype service_error =
    ValidationError string | NotFoundError | GenerationError string
  | RefinementError string | ExportError string

text \<open>
  Modelled from the spec: the AI Text Provider of section 2,
  \<open>transform(instruction, inputText) -> outputText\<close>, which may fail or time out (\<open>Inl\<close>, with
  the cause).  It is outside the system and need not answer the same input twice alike, so
  it is also given the number of the call.
\<close>

type_synonym provider = "nat \<Rightarrow> string \<Rightarrow> string \<Rightarrow> string + string"

text \<open>Modelled from the spec: reading a Section by id.\<close>

definition find_section :: "backend \<Rightarrow> nat \<Rightarrow> section_row option" where
  "find_section db sid = find (\<lambda>s. sec_id s = sid) (sections db)"

text \<open>Modelled from the spec: reading a Document by id.\<close>

definition find_document :: "backend \<Rightarrow> nat \<Rightarrow> document_row option" where
  "find_document db did = find (\<lambda>d. doc_id d = did) (documents db)"

text \<open>Modelled from the spec: a Section is replaced in place, the others stay.\<close>

definition update_section :: "nat \<Rightarrow> (section_row \<Rightarrow> section_row) \<Rightarrow> backend \<Rightarrow> backend" where
  "update_section sid f db =
     db\<lparr>sections := map (\<lambda>s. if sec_id s = sid then f s else s) (sections db)\<rparr>"

text \<open>Modelled from the spec: the refinement history of a Section (empty for an unknown id).\<close>

definition history :: "backend \<Rightarrow> nat \<Rightarrow> refinement list" where
  "history db sid = (case find_section db sid of None \<Rightarrow> [] | Some s \<Rightarrow> refinements s)"

text \<open>
  Modelled from the spec: the common step of \<open>refine\<close> and \<open>regenerate\<close> (section 4.2): one
  provider call; on success a new Refinement row is appended to the Section's history and
  \<open>Section.text\<close> is overwritten; on failure nothing is written and a RefinementError
  carries the cause.  There is no retry.
\<close>

definition revise ::
  "provider \<Rightarrow> nat \<Rightarrow> nat \<Rightarrow> string \<Rightarrow> string \<Rightarrow> backend
     \<Rightarrow> (service_error + string \<times> refinement list) \<times> backend" where
  "revise transform now sid instruction inputText db =
     (let db1 = db\<lparr>provider_calls := provider_calls db + 1\<rparr> in
      case transform (provider_calls db) instruction inputText of
        Inl cause \<Rightarrow> (Inl (RefinementError cause), db1)
      | Inr revised \<Rightarrow>
          (let r = \<lparr>ref_id = next_id db, ref_prompt = instruction,
                    ref_revised_text = revised, ref_created_at = now\<rparr>;
               db2 = update_section sid
                       (\<lambda>s. s\<lparr>sec_text := revised, refinements := refinements s @ [r]\<rparr>)
                       (db1\<lparr>next_id := next_id db + 1\<rparr>)
           in (Inr (revised, history db2 sid), db2)))"

text \<open>
  Modelled from the spec: \<open>refine(sectionId, prompt, currentText)\<close> of section 4.2.  The
  prompt must be non-empty; an unknown section id is a NotFoundError (section 7).
\<close>

definition refine_service ::
  "provider \<Rightarrow> nat \<Rightarrow> nat \<Rightarrow> string \<Rightarrow> string \<Rightarrow> backend
     \<Rightarrow> (service_error + string \<times> refinement list) \<times> backend" where
  "refine_service transform now sid p currentText db =
     (if p = [] then (Inl (ValidationError ''Enter a refinement prompt''), db)
      else (case find_section db sid of
              None \<Rightarrow> (Inl NotFoundError, db)
            | Some s \<Rightarrow> revise transform now sid p currentText db))"

text \<open>
  Modelled from the spec: \<open>regenerate(sectionId)\<close> of section 4.2, the same contract with an
  implicit instruction made from the Section's heading (\<open>fresh\<close>, a parameter) and the
  Section's stored text as input.
\<close>

definition regenerate_service ::
  "provider \<Rightarrow> (string \<Rightarrow> string) \<Rightarrow> nat \<Rightarrow> nat \<Rightarrow> backend
     \<Rightarrow> (service_error + string \<times> refinement list) \<times> backend" where
  "regenerate_service transform fresh now sid db =
     (case find_section db sid of
        None \<Rightarrow> (Inl NotFoundError, db)
      | Some s \<Rightarrow> revise transform now sid (fresh (heading s)) (sec_text s) db)"

text \<open>
  Modelled from the spec: \<open>setFeedback(sectionId, liked)\<close> of section 4.3 overwrites
  \<open>Section.last_feedback\<close>.
\<close>

definition setFeedback :: "nat \<Rightarrow> bool \<Rightarrow> backend \<Rightarrow> (service_error + unit) \<times> backend" where
  "setFeedback sid liked db =
     (case find_section db sid of
        None \<Rightarrow> (Inl NotFoundError, db)
      | Some s \<Rightarrow> (Inr (), update_section sid (\<lambda>s. s\<lparr>last_feedback := Some liked\<rparr>) db))"

text \<open>
  Modelled from the spec: \<open>addComment(sectionId, text)\<close> of section 4.3 appends a Comment
  and returns it; an empty text is a ValidationError.
\<close>

definition addComment ::
  "nat \<Rightarrow> nat \<Rightarrow> string \<Rightarrow> backend \<Rightarrow> (service_error + comment_row) \<times> backend" where
  "addComment now sid txt db =
     (if txt = [] then (Inl (ValidationError []), db)
      else (case find_section db sid of
              None \<Rightarrow> (Inl NotFoundError, db)
            | Some s \<Rightarrow>
                (let c = \<lparr>com_id = next_id db, com_comment = txt, com_created_at = now\<rparr>
                 in (Inr c, update_section sid (\<lambda>s. s\<lparr>comments := comments s @ [c]\<rparr>)
                              (db\<lparr>next_id := next_id db + 1\<rparr>)))))"

text \<open>
  Modelled from the spec: \<open>createDocument(title, ownerId)\<close> of section 4.1 inserts a
  Document with no Sections; an empty title is a ValidationError.
\<close>

definition createDocument ::
  "nat \<Rightarrow> string \<Rightarrow> string \<Rightarrow> backend \<Rightarrow> (service_error + document_row) \<times> backend" where
  "createDocument now ttl ownerId db =
     (if ttl = [] then (Inl (ValidationError []), db)
      else
        (let d = \<lparr>doc_id = next_id db, title = ttl, owner = ownerId, doc_created_at = now,
                  gen_prompt = [], gen_theme = [], gen_pages = 0\<rparr>
         in (Inr d, db\<lparr>documents := documents db @ [d], next_id := next_id db + 1\<rparr>)))"

text \<open>
  Modelled from the spec: how a page's instruction and heading are derived from the prompt,
  the theme and the page index is left open by section 4.1; both are parameters.
\<close>

record page_rules =
  page_instruction :: "string \<Rightarrow> string \<Rightarrow> nat \<Rightarrow> string"
  page_heading :: "string \<Rightarrow> nat \<Rightarrow> string"

text \<open>
  Modelled from the spec: the Section created for page \<open>i\<close> from the provider's output
  (section 4.1: \<open>position = index\<close>, heading derived from the page topic; type tag "text",
  no feedback, no history yet).
\<close>

definition new_page :: "page_rules \<Rightarrow> nat \<Rightarrow> string \<Rightarrow> nat \<Rightarrow> nat \<Rightarrow> string \<Rightarrow> section_row" where
  "new_page rules did p ident i out =
     \<lparr>sec_id = ident, document_id = did, position = i, heading = page_heading rules p i,
      type_tag = ''text'', sec_text = out, last_feedback = None, refinements = [],
      comments = []\<rparr>"

text \<open>
  Modelled from the spec: the page loop of \<open>generateDocument\<close> (section 4.1), from page
  \<open>i\<close> with \<open>n\<close> pages to go: one provider call per page, in order, one Section per result.
  A provider failure stops the loop; the Sections already created stay.
\<close>

fun generate_pages ::
  "provider \<Rightarrow> page_rules \<Rightarrow> nat \<Rightarrow> string \<Rightarrow> string \<Rightarrow> nat \<Rightarrow> nat \<Rightarrow> backend
     \<Rightarrow> service_error option \<times> backend" where
  "generate_pages transform rules did p theme i 0 db = (None, db)"
| "generate_pages transform rules did p theme i (Suc n) db =
     (case transform (provider_calls db) (page_instruction rules p theme i) p of
        Inl cause \<Rightarrow>
          (Some (GenerationError cause), db\<lparr>provider_calls := provider_calls db + 1\<rparr>)
      | Inr out \<Rightarrow>
          generate_pages transform rules did p theme (Suc i) n
            (db\<lparr>sections := sections db @ [new_page rules did p (next_id db) i out],
                 next_id := next_id db + 1,
                 provider_calls := provider_calls db + 1\<rparr>))"

text \<open>Modelled from the spec: the Sections of a Document in display order (by position).\<close>

definition sections_of :: "backend \<Rightarrow> nat \<Rightarrow> section_row list" where
  "sections_of db did = sort_key position (filter (\<lambda>s. document_id s = did) (sections db))"

text \<open>
  Modelled from the spec: \<open>generateDocument(documentId, prompt, theme, pageCount)\<close> of
  section 4.1.  A non-positive page count or an empty prompt is a GenerationError before
  any call is made; an unknown document id is a NotFoundError (section 7).
\<close>

definition generateDocument ::
  "provider \<Rightarrow> page_rules \<Rightarrow> nat \<Rightarrow> string \<Rightarrow> string \<Rightarrow> int \<Rightarrow> backend
     \<Rightarrow> (service_error + document_row \<times> section_row list) \<times> backend" where
  "generateDocument transform rules did p theme pageCount db =
     (if pageCount \<le> 0 \<or> p = [] then (Inl (GenerationError []), db)
      else (case find_document db did of
              None \<Rightarrow> (Inl NotFoundError, db)
            | Some d \<Rightarrow>
                (let d' = d\<lparr>gen_prompt := p, gen_theme := theme, gen_pages := pageCount\<rparr>;
                     db0 = db\<lparr>documents :=
                              map (\<lambda>x. if doc_id x = did then d' else x) (documents db)\<rparr>
                 in case generate_pages transform rules did p theme 0 (nat pageCount) db0 of
                      (Some e, db') \<Rightarrow> (Inl e, db')
                    | (None, db') \<Rightarrow> (Inr (d', sections_of db' did), db'))))"

text \<open>
  Modelled from the spec: \<open>getDocument(documentId)\<close> of section 4.1: the Document with its
  ordered Sections, NotFoundError for an unknown id.
\<close>

definition getDocument :: "backend \<Rightarrow> nat \<Rightarrow> service_error + document_row \<times> section_row list" where
  "getDocument db did =
     (case find_document db did of
        None \<Rightarrow> Inl NotFoundError
      | Some d \<Rightarrow> Inr (d, sections_of db did))"

text \<open>Modelled from the spec: the fixed set of export formats of section 4.4.\<close>

datatype export_format = Docx | Pptx | Pdf

text \<open>Modelled from the spec: reading the \<open>format\<close> argument of \<open>export\<close>.\<close>

definition parse_format :: "string \<Rightarrow> export_format option" where
  "parse_format fmt =
     (if fmt = ''docx'' then Some Docx else if fmt = ''pptx'' then Some Pptx
      else if fmt = ''pdf'' then Some Pdf else None)"

text \<open>Modelled from the spec: the file extension that goes with a format.\<close>

fun extension :: "export_format \<Rightarrow> string" where
  "extension Docx = ''docx''"
| "extension Pptx = ''pptx''"
| "extension Pdf = ''pdf''"

text \<open>
  Modelled from the spec: \<open>export(documentId, format)\<close> of section 4.4.  The renderer is an
  external collaborator, a parameter taking the format, the title and the ordered
  (heading, text) pairs; \<open>None\<close> is a render failure.
\<close>

definition export_service ::
  "(export_format \<Rightarrow> string \<Rightarrow> (string \<times> string) list \<Rightarrow> string option)
     \<Rightarrow> nat \<Rightarrow> string \<Rightarrow> backend \<Rightarrow> service_error + string \<times> string" where
  "export_service render did fmt db =
     (case parse_format fmt of
        None \<Rightarrow> Inl (ValidationError [])
      | Some f \<Rightarrow>
          (case getDocument db did of
             Inl e \<Rightarrow> Inl e
           | Inr (d, secs) \<Rightarrow>
               (case render f (title d) (map (\<lambda>s. (heading s, sec_text s)) secs) of
                  None \<Rightarrow> Inl (ExportError [])
                | Some bytes \<Rightarrow> Inr (bytes, extension f))))"

text \<open>
  Modelled from the spec: the operations of section 4 that write to the store, as one
  type, so that "any later operation" can be quantified over.  \<open>getDocument\<close>,
  \<open>listDocuments\<close> and \<open>export\<close> only read.
\<close>

datatype operation =
    OpCreate nat string string
  | OpGenerate nat string string int
  | OpRefine nat nat string string
  | OpRegenerate nat nat
  | OpFeedback nat bool
  | OpComment nat nat string

text \<open>Modelled from the spec: running one operation, then a sequence of them.\<close>

fun run_op :: "provider \<Rightarrow> page_rules \<Rightarrow> (string \<Rightarrow> string) \<Rightarrow> operation \<Rightarrow> backend \<Rightarrow> backend" where
  "run_op T rules fresh (OpCreate now ttl ownerId) db = snd (createDocument now ttl ownerId db)"
| "run_op T rules fresh (OpGenerate did p theme k) db = snd (generateDocument T rules did p theme k db)"
| "run_op T rules fresh (OpRefine now sid p cur) db = snd (refine_service T now sid p cur db)"
| "run_op T rules fresh (OpRegenerate now sid) db = snd (regenerate_service T fresh now sid db)"
| "run_op T rules fresh (OpFeedback sid liked) db = snd (setFeedback sid liked db)"
| "run_op T rules fresh (OpComment now sid txt) db = snd (addComment now sid txt db)"

text \<open>Modelled from the spec: a sequence of operations, in order.\<close>

definition run_ops :: "provider \<Rightarrow> page_rules \<Rightarrow> (string \<Rightarrow> string) \<Rightarrow> operation list \<Rightarrow> backend \<Rightarrow> backend" where
  "run_ops T rules fresh ops db = fold (run_op T rules fresh) ops db"

text \<open>
  Modelled from the spec: \<open>refine\<close> called once per element of a list of
  (time, prompt, current text), in order, on one Section.
\<close>

definition refine_all :: "provider \<Rightarrow> nat \<Rightarrow> (nat \<times> string \<times> string) list \<Rightarrow> backend \<Rightarrow> backend" where
  "refine_all T sid calls db =
     fold (\<lambda>(now, p, cur) d. snd (refine_service T now sid p cur d)) calls db"

section \<open>Example inputs\<close>

text \<open>A document of two sections as the client holds it, and a card on its first section.\<close>

definition ex_section1 :: jsval where
  "ex_section1 =
     JObj [(''id'', JNum 1), (''heading'', JStr ''Intro''), (''text'', JStr ''first draft'')]"

definition ex_section2 :: jsval where
  "ex_section2 =
     JObj [(''id'', JNum 2), (''heading'', JStr ''Body''), (''text'', JStr ''second draft'')]"

definition ex_doc :: jsval where
  "ex_doc =
     JObj [(''id'', JNum 7), (''title'', JStr ''Report''),
           (''sections'', JArr [ex_section1, ex_section2])]"

definition ex_view :: view where
  "ex_view =
     \<lparr>current = ex_doc, refinePrompt = ''Shorten'', loadingRefine = False, alerts = [],
      sent = [], saved = [], crashed = None\<rparr>"

text \<open>A network that is down, and one that answers every request with the same response.\<close>

definition offline :: "request \<Rightarrow> fetch_result" where
  "offline req = Rejected"

definition answering :: "response \<Rightarrow> request \<Rightarrow> fetch_result" where
  "answering res req = Resolved res"

text \<open>
  A stand-in for \<open>JSON.parse\<close> that reads the three JSON literals and rejects every other
  text, and two contents of \<open>localStorage\<close>.
\<close>

definition parse_literal :: "string \<Rightarrow> js_error + jsval" where
  "parse_literal s =
     (if s = ''null'' then Inr JNull
      else if s = ''true'' then Inr (JBool True)
      else if s = ''false'' then Inr (JBool False)
      else Inl SyntaxError)"

definition no_session :: "string \<rightharpoonup> string" where
  "no_session k = None"

definition stored_session :: "string \<Rightarrow> string \<rightharpoonup> string" where
  "stored_session s k = (if k = ''ai_user'' then Some s else None)"

definition ex_changes :: jsval where
  "ex_changes = JObj [(''text'', JStr ''shorter'')]"

definition ex_doc_shorter :: jsval where
  "ex_doc_shorter =
     JObj [(''id'', JNum 7), (''title'', JStr ''Report''),
           (''sections'', JArr [ex_section1,
              JObj [(''id'', JNum 2), (''heading'', JStr ''Body''), (''text'', JStr ''shorter'')]])]"

text \<open>A card whose prompt is blank, and an error response carrying its message under one key.\<close>

definition ex_blank_view :: view where
  "ex_blank_view = ex_view\<lparr>refinePrompt := ''   ''\<rparr>"

text \<open>
  A card whose prompt is U+00A0 NO-BREAK SPACE, U+3000 IDEOGRAPHIC SPACE, U+2028 LINE
  SEPARATOR and U+FEFF.
\<close>

definition ex_nbsp_view :: view where
  "ex_nbsp_view =
     ex_view\<lparr>refinePrompt :=
       [CHR 0xC2, CHR 0xA0, CHR 0xE3, CHR 0x80, CHR 0x80, CHR 0xE2, CHR 0x80, CHR 0xA8,
        CHR 0xEF, CHR 0xBB, CHR 0xBF]\<rparr>"

definition ex_error_response :: "string \<Rightarrow> response" where
  "ex_error_response key =
     \<lparr>status = 500, content_type = Some ''application/json'',
      json_body = Some (JObj [(key, JStr ''Quota exceeded'')]), blob_body = None\<rparr>"

definition ex_editor :: editor where
  "ex_editor =
     \<lparr>doc = ex_doc, localEdits = [], loading = False, ed_alerts = [], ed_sent = [],
      ed_crashed = None\<rparr>"


text \<open>
  A provider that always answers and one that never does; rules for page instructions and
  headings; the instruction used by \<open>regenerate\<close>; a renderer.
\<close>

definition ex_provider :: provider where
  "ex_provider n instruction inputText = Inr (''About '' @ inputText)"

definition failing_provider :: provider where
  "failing_provider n instruction inputText = Inl ''quota exceeded''"

definition ex_instruction :: "string \<Rightarrow> string \<Rightarrow> nat \<Rightarrow> string" where
  "ex_instruction p theme i = theme @ '' page '' @ show_nat (Suc i) @ '' on '' @ p"

definition ex_heading :: "string \<Rightarrow> nat \<Rightarrow> string" where
  "ex_heading p i = p @ '' '' @ show_nat (Suc i)"

definition ex_rules :: page_rules where
  "ex_rules = \<lparr>page_instruction = ex_instruction, page_heading = ex_heading\<rparr>"

definition ex_fresh :: "string \<Rightarrow> string" where
  "ex_fresh h = ''Fresh content for '' @ h"

fun ex_render :: "export_format \<Rightarrow> string \<Rightarrow> (string \<times> string) list \<Rightarrow> string option" where
  "ex_render f ttl pairs = Some (extension f @ '':'' @ ttl @ concat (map fst pairs))"

text \<open>
  A store holding document 7 without sections, and one holding it with two sections
  stored out of display order.
\<close>

definition ex_document :: document_row where
  "ex_document =
     \<lparr>doc_id = 7, title = ''Report'', owner = ''ann'', doc_created_at = 1, gen_prompt = [],
      gen_theme = [], gen_pages = 0\<rparr>"

definition ex_created :: backend where
  "ex_created = \<lparr>documents = [ex_document], sections = [], next_id = 8, provider_calls = 0\<rparr>"

definition ex_row :: "nat \<Rightarrow> nat \<Rightarrow> string \<Rightarrow> section_row" where
  "ex_row ident pos h =
     \<lparr>sec_id = ident, document_id = 7, position = pos, heading = h, type_tag = ''text'',
      sec_text = ''first draft'', last_feedback = None, refinements = [], comments = []\<rparr>"

definition ex_backend :: backend where
  "ex_backend =
     \<lparr>documents = [ex_document], sections = [ex_row 12 1 ''Body'', ex_row 11 0 ''Intro''],
      next_id = 20, provider_calls = 2\<rparr>"



definition ex_file_response :: response where
  "ex_file_response =
     \<lparr>status = 200, content_type = Some ''application/pdf'', json_body = None,
      blob_body = Some ''%PDF''\<rparr>"


text \<open>Two refinements of section 11, in call order: time, prompt, current text.\<close>

definition ex_calls :: "(nat \<times> string \<times> string) list" where
  "ex_calls = [(5, ''Shorten'', ''first draft''), (6, ''More formal'', ''About first draft'')]"

section \<open>Names for the proofs\<close>



section \<open>Theorems\<close>

subsection \<open>String.prototype.trim\<close>

lemmas trim_eval = trim_def trimStart_def trimEnd_def is_space_def is_space2_def is_space3_def
  white_space_def

text \<open>A string made of white-space code points only trims to the empty string.\<close>

lemma is_space_iff: "is_space a \<longleftrightarrow> [a] \<in> set white_space"
  by (simp add: is_space_def white_space_def)

lemma strip_one:
  assumes "is_space a"
  shows "strip_spaces two three (a # s) = strip_spaces two three s"
proof (cases s)
  case Nil
  with assms show ?thesis by simp
next
  case (Cons b t)
  with assms show ?thesis by (cases t) simp_all
qed

lemma strip_two:
  "\<not> is_space a \<Longrightarrow> two a b \<Longrightarrow> strip_spaces two three (a # b # s) = strip_spaces two three s"
  by (cases s) simp_all

lemma strip_three:
  "\<not> is_space a \<Longrightarrow> \<not> two a b \<Longrightarrow> three a b c \<Longrightarrow>
   strip_spaces two three (a # b # c # s) = strip_spaces two three s"
  by simp

lemma trimStart_white:
  "w \<in> set white_space \<Longrightarrow> trimStart (w @ s) = trimStart s"
  unfolding trimStart_def
  by (auto simp: white_space_def strip_one strip_two strip_three is_space_def is_space2_def
      is_space3_def)

lemma trimStart_blank: "set ws \<subseteq> set white_space \<Longrightarrow> trimStart (concat ws) = []"
proof (induction ws)
  case Nil
  then show ?case by (simp add: trimStart_def)
next
  case (Cons w ws)
  then show ?case by (simp add: trimStart_white)
qed

lemma trim_blank: "set ws \<subseteq> set white_space \<Longrightarrow> trim (concat ws) = []"
  by (simp add: trim_def trimStart_blank trimEnd_def)

text \<open>
  Conversely, what the loop drops is a sequence of white-space code points, so a string
  trims to the empty string exactly when it is made of white space only.
\<close>

lemma strip_spaces_split:
  assumes "\<And>a. is_space a \<Longrightarrow> W [a]"
    and "\<And>a b. two a b \<Longrightarrow> W [a, b]"
    and "\<And>a b c. three a b c \<Longrightarrow> W [a, b, c]"
  shows "\<exists>ws. (\<forall>w \<in> set ws. W w) \<and> s = concat ws @ strip_spaces two three s"
  using assms
proof (induction two three s rule: strip_spaces.induct)
  case (1 p q a b c s)
  show ?case
  proof (cases "is_space a")
    case True
    with "1.IH"(1) "1.prems" obtain ws where "\<forall>w \<in> set ws. W w"
      and "b # c # s = concat ws @ strip_spaces p q (b # c # s)" by blast
    with True "1.prems"(1) [of a] show ?thesis
      by (intro exI [of _ "[a] # ws"]) simp
  next
    case False
    show ?thesis
    proof (cases "p a b")
      case True
      with False "1.IH"(2) "1.prems" obtain ws where "\<forall>w \<in> set ws. W w"
        and "c # s = concat ws @ strip_spaces p q (c # s)" by blast
      with False True "1.prems"(2) [of a b] show ?thesis
        by (intro exI [of _ "[a, b] # ws"]) simp
    next
      case nt: False
      show ?thesis
      proof (cases "q a b c")
        case True
        with False nt "1.IH"(3) "1.prems" obtain ws where "\<forall>w \<in> set ws. W w"
          and "s = concat ws @ strip_spaces p q s" by blast
        with False nt True "1.prems"(3) [of a b c] show ?thesis
          by (intro exI [of _ "[a, b, c] # ws"]) simp
      next
        case n3: False
        with False nt show ?thesis by (intro exI [of _ "[]"]) simp
      qed
    qed
  qed
next
  case (2 p q a b)
  show ?case
  proof (cases "is_space a")
    case True
    with "2.IH" "2.prems" obtain ws where "\<forall>w \<in> set ws. W w"
      and "[b] = concat ws @ strip_spaces p q [b]" by blast
    with True "2.prems"(1) [of a] show ?thesis
      by (intro exI [of _ "[a] # ws"]) simp
  next
    case False
    show ?thesis
    proof (cases "p a b")
      case True
      with False "2.prems"(2) [of a b] show ?thesis
        by (intro exI [of _ "[[a, b]]"]) simp
    next
      case nt: False
      with False show ?thesis by (intro exI [of _ "[]"]) simp
    qed
  qed
next
  case (3 p q a)
  show ?case
  proof (cases "is_space a")
    case True
    with "3.prems"(1) [of a] show ?thesis by (intro exI [of _ "[[a]]"]) simp
  next
    case False
    then show ?thesis by (intro exI [of _ "[]"]) simp
  qed
next
  case (4 p q)
  show ?case by (intro exI [of _ "[]"]) simp
qed

lemma trimStart_split:
  "\<exists>ws. set ws \<subseteq> set white_space \<and> s = concat ws @ trimStart s"
proof -
  have "\<exists>ws. (\<forall>w \<in> set ws. w \<in> set white_space) \<and>
          s = concat ws @ strip_spaces is_space2 is_space3 s"
    by (rule strip_spaces_split)
       (simp_all add: is_space_def is_space2_def is_space3_def white_space_def)
  then show ?thesis by (auto simp: trimStart_def)
qed

lemma trimEnd_split:
  "\<exists>ws. set ws \<subseteq> set white_space \<and> s = trimEnd s @ concat ws"
proof -
  have "\<exists>ws. (\<forall>w \<in> set ws. rev w \<in> set white_space) \<and>
          rev s = concat ws @ strip_spaces (\<lambda>a b. is_space2 b a) (\<lambda>a b c. is_space3 c b a) (rev s)"
    by (rule strip_spaces_split)
       (simp_all add: is_space_def is_space2_def is_space3_def white_space_def)
  then obtain ws where w: "\<forall>w \<in> set ws. rev w \<in> set white_space"
    and r: "rev s = concat ws @ rev (trimEnd s)"
    by (auto simp: trimEnd_def)
  from r have "rev (rev s) = rev (concat ws @ rev (trimEnd s))" by simp
  then have "s = trimEnd s @ concat (map rev (rev ws))"
    by (simp add: rev_concat rev_map)
  with w show ?thesis
    by (intro exI [of _ "map rev (rev ws)"]) auto
qed

lemma trim_empty_iff:
  "trim s = [] \<longleftrightarrow> (\<exists>ws. set ws \<subseteq> set white_space \<and> s = concat ws)"
proof
  assume e: "trim s = []"
  obtain ws where w: "set ws \<subseteq> set white_space" and s: "s = concat ws @ trimStart s"
    using trimStart_split by blast
  obtain vs where v: "set vs \<subseteq> set white_space"
    and t: "trimStart s = trimEnd (trimStart s) @ concat vs"
    using trimEnd_split by blast
  from e t have "trimStart s = concat vs" by (simp add: trim_def)
  with s have "s = concat (ws @ vs)" by simp
  with w v show "\<exists>ws. set ws \<subseteq> set white_space \<and> s = concat ws"
    by (intro exI [of _ "ws @ vs"]) simp
next
  assume "\<exists>ws. set ws \<subseteq> set white_space \<and> s = concat ws"
  then show "trim s = []" by (auto simp: trim_blank)
qed

lemma lookup_update: "lookup (AList.update k v kvs) k' = (if k' = k then v else lookup kvs k')"
  by (simp add: lookup_def update_conv')

subsection \<open>Objects and lists\<close>

lemma lookup_Cons: "lookup ((k, v) # kvs) k' = (if k' = k then v else lookup kvs k')"
  by (simp add: lookup_def)

lemma lookup_fold_update:
  "distinct (map fst c) \<Longrightarrow>
   lookup (fold (\<lambda>(k, v). AList.update k v) c s) k =
     (if k \<in> fst ` set c then lookup c k else lookup s k)"
proof (induction c arbitrary: s)
  case Nil
  then show ?case by simp
next
  case (Cons p c)
  obtain k0 v0 where p: "p = (k0, v0)" by (cases p)
  from Cons.prems p have d: "distinct (map fst c)" and n: "k0 \<notin> fst ` set c" by auto
  show ?case
    using Cons.IH [OF d, of "AList.update k0 v0 s"] n
    by (auto simp: p lookup_update lookup_Cons)
qed

lemma lookup_spread2:
  "distinct (map fst (own_props b)) \<Longrightarrow>
   lookup (spread2 a b) k =
     (if k \<in> fst ` set (own_props b) then lookup (own_props b) k else lookup (own_props a) k)"
  unfolding spread2_def by (rule lookup_fold_update)

lemma map_throw_Inr:
  "map_throw f xs = Inr ys \<Longrightarrow> length ys = length xs \<and> (\<forall>i < length xs. f (xs ! i) = Inr (ys ! i))"
proof (induction xs arbitrary: ys)
  case Nil
  then show ?case by simp
next
  case (Cons x xs)
  then show ?case
    by (auto split: sum.splits simp: nth_Cons')
qed

lemma map_throw_total:
  "(\<forall>x \<in> set xs. \<exists>y. f x = Inr y) \<Longrightarrow> \<exists>ys. map_throw f xs = Inr ys"
  by (induction xs) (auto split: sum.splits)

lemma merge_section_total: "\<not> nullish s \<Longrightarrow> \<exists>y. merge_section sid c s = Inr y"
  by (cases s) (auto simp: merge_section_def nullish_def)

subsection \<open>C10: updateSection changes the addressed section only\<close>

text \<open>
  Claim C10.  For every document state \<open>prev\<close>, section id and object of changes (a
  well-formed object: no key twice), the updater of \<open>DocumentView.updateSection\<close> returns a
  document whenever the section list of \<open>prev\<close> is an array without \<open>null\<close> or \<open>undefined\<close>
  entries (or is missing, which reads as the empty list).  The document it returns has a
  section list of the same length in the same order; a section whose \<open>id\<close> is \<open>===\<close> the
  given id is replaced by the merge, in which every key of \<open>changes\<close> has the value
  \<open>changes\<close> gives it and every other key keeps the section's value; every other section
  is the old one; and every field of the document other than \<open>sections\<close> reads as before.
\<close>

theorem updateSection_frame:
  assumes "distinct (map fst (own_props changes))"
  shows
    "(js_or (lookup (own_props prev) ''sections'') (JArr []) = JArr old \<and>
      (\<forall>s \<in> set old. \<not> nullish s)
        \<longrightarrow> (\<exists>nxt. updateSection prev sectionId changes = Inr nxt))
     \<and> (updateSection prev sectionId changes = Inr nxt \<longrightarrow>
      (\<exists>old new fields.
         js_or (lookup (own_props prev) ''sections'') (JArr []) = JArr old \<and>
         nxt = JObj fields \<and> lookup fields ''sections'' = JArr new \<and>
         length new = length old \<and>
         (\<forall>i < length old. \<exists>sid. get_prop (old ! i) ''id'' = Inr sid \<and>
            (if strict_eq sid sectionId
             then \<exists>merged. new ! i = JObj merged \<and>
                    (\<forall>k. lookup merged k =
                       (if k \<in> fst ` set (own_props changes)
                        then lookup (own_props changes) k
                        else lookup (own_props (old ! i)) k))
             else new ! i = old ! i)) \<and>
         (\<forall>k. k \<noteq> ''sections'' \<longrightarrow> lookup fields k = lookup (own_props prev) k)))"
proof (intro conjI impI)
  assume a: "js_or (lookup (own_props prev) ''sections'') (JArr []) = JArr old \<and>
      (\<forall>s \<in> set old. \<not> nullish s)"
  then have "\<exists>ys. map_throw (merge_section sectionId changes) old = Inr ys"
    by (intro map_throw_total) (auto dest: merge_section_total)
  with a show "\<exists>nxt. updateSection prev sectionId changes = Inr nxt"
    by (auto simp: updateSection_def)
next
  assume r: "updateSection prev sectionId changes = Inr nxt"
  then obtain old where o: "js_or (lookup (own_props prev) ''sections'') (JArr []) = JArr old"
    by (auto simp: updateSection_def Let_def split: jsval.splits)
  with r obtain new where m: "map_throw (merge_section sectionId changes) old = Inr new"
    and n: "nxt = JObj (AList.update ''sections'' (JArr new) (own_props prev))"
    by (auto simp: updateSection_def Let_def split: sum.splits)
  note mt = map_throw_Inr [OF m]
  have el: "\<exists>sid. get_prop (old ! i) ''id'' = Inr sid \<and>
            (if strict_eq sid sectionId
             then \<exists>merged. new ! i = JObj merged \<and>
                    (\<forall>k. lookup merged k =
                       (if k \<in> fst ` set (own_props changes)
                        then lookup (own_props changes) k
                        else lookup (own_props (old ! i)) k))
             else new ! i = old ! i)" if "i < length old" for i
  proof -
    from mt that have "merge_section sectionId changes (old ! i) = Inr (new ! i)" by simp
    then obtain sid where g: "get_prop (old ! i) ''id'' = Inr sid"
      and v: "new ! i = (if strict_eq sid sectionId then JObj (spread2 (old ! i) changes) else old ! i)"
      by (auto simp: merge_section_def split: sum.splits)
    show ?thesis
      apply (rule exI [of _ sid])
      using g v lookup_spread2 [OF assms, of "old ! i"] by simp
  qed
  show "\<exists>old new fields.
         js_or (lookup (own_props prev) ''sections'') (JArr []) = JArr old \<and>
         nxt = JObj fields \<and> lookup fields ''sections'' = JArr new \<and>
         length new = length old \<and>
         (\<forall>i < length old. \<exists>sid. get_prop (old ! i) ''id'' = Inr sid \<and>
            (if strict_eq sid sectionId
             then \<exists>merged. new ! i = JObj merged \<and>
                    (\<forall>k. lookup merged k =
                       (if k \<in> fst ` set (own_props changes)
                        then lookup (own_props changes) k
                        else lookup (own_props (old ! i)) k))
             else new ! i = old ! i)) \<and>
         (\<forall>k. k \<noteq> ''sections'' \<longrightarrow> lookup fields k = lookup (own_props prev) k)"
    apply (rule exI [of _ old], rule exI [of _ new])
    apply (rule exI [of _ "AList.update ''sections'' (JArr new) (own_props prev)"])
    using o n mt el by (simp add: lookup_update)
qed

theorem updateSection_frame_witness:
  "distinct (map fst (own_props ex_changes))
   \<and> updateSection ex_doc (JNum 2) ex_changes = Inr ex_doc_shorter
   \<and> (\<exists>fields new.
         ex_doc_shorter = JObj fields \<and> lookup fields ''sections'' = JArr new \<and>
         length new = 2 \<and> new ! 0 = ex_section1 \<and>
         opt_get (new ! 1) ''text'' = JStr ''shorter'' \<and>
         opt_get (new ! 1) ''heading'' = JStr ''Body'' \<and>
         lookup fields ''title'' = JStr ''Report'' \<and> lookup fields ''id'' = JNum 7)"
proof -
  have h1: "distinct (map fst (own_props ex_changes))"
    by (simp add: ex_changes_def)
  have h2: "updateSection ex_doc (JNum 2) ex_changes = Inr ex_doc_shorter"
    by (simp add: updateSection_def ex_doc_def ex_section1_def ex_section2_def ex_changes_def
        ex_doc_shorter_def lookup_def js_or_def merge_section_def spread2_def)
  from updateSection_frame [OF h1, where prev = ex_doc and sectionId = "JNum 2"
      and nxt = ex_doc_shorter, THEN conjunct2, THEN mp, OF h2]
  obtain old new fields where
    o: "js_or (lookup (own_props ex_doc) ''sections'') (JArr []) = JArr old" and
    f: "ex_doc_shorter = JObj fields" and
    s: "lookup fields ''sections'' = JArr new" and
    l: "length new = length old" and
    e: "\<forall>i < length old. \<exists>sid. get_prop (old ! i) ''id'' = Inr sid \<and>
            (if strict_eq sid (JNum 2)
             then \<exists>merged. new ! i = JObj merged \<and>
                    (\<forall>k. lookup merged k =
                       (if k \<in> fst ` set (own_props ex_changes)
                        then lookup (own_props ex_changes) k
                        else lookup (own_props (old ! i)) k))
             else new ! i = old ! i)" and
    r: "\<forall>k. k \<noteq> ''sections'' \<longrightarrow> lookup fields k = lookup (own_props ex_doc) k"
    by blast
  from o have old: "old = [ex_section1, ex_section2]"
    by (simp add: ex_doc_def lookup_def js_or_def)
  from e [rule_format, of 0] have n0: "new ! 0 = ex_section1"
    by (simp add: old ex_section1_def lookup_def)
  from e [rule_format, of 1] obtain merged where m: "new ! 1 = JObj merged"
    and mk: "\<forall>k. lookup merged k =
                       (if k \<in> fst ` set (own_props ex_changes)
                        then lookup (own_props ex_changes) k
                        else lookup (own_props ex_section2) k)"
    by (auto simp: old ex_section2_def lookup_def)
  from m have m': "new ! Suc 0 = JObj merged" by simp
  have t: "opt_get (new ! 1) ''text'' = JStr ''shorter''"
    using mk [rule_format, of "''text''"] by (simp add: m' opt_get_def ex_changes_def lookup_def)
  have h: "opt_get (new ! 1) ''heading'' = JStr ''Body''"
    using mk [rule_format, of "''heading''"]
    by (simp add: m' opt_get_def ex_changes_def ex_section2_def lookup_def)
  have ti: "lookup fields ''title'' = JStr ''Report''" "lookup fields ''id'' = JNum 7"
    using r [rule_format, of "''title''"] r [rule_format, of "''id''"]
    by (simp_all add: ex_doc_def lookup_def)
  have ex: "\<exists>fields new.
         ex_doc_shorter = JObj fields \<and> lookup fields ''sections'' = JArr new \<and>
         length new = 2 \<and> new ! 0 = ex_section1 \<and>
         opt_get (new ! 1) ''text'' = JStr ''shorter'' \<and>
         opt_get (new ! 1) ''heading'' = JStr ''Body'' \<and>
         lookup fields ''title'' = JStr ''Report'' \<and> lookup fields ''id'' = JNum 7"
    apply (rule exI [of _ fields], rule exI [of _ new])
    using f s l n0 t h ti by (simp add: old)
  from h1 h2 ex show ?thesis by (intro conjI)
qed

subsection \<open>C9: loadUser never throws\<close>

lemma parse_arg:
  "to_string (js_or (getItem ls ''ai_user'') (JStr ''null'')) =
     (case ls ''ai_user'' of None \<Rightarrow> ''null'' | Some s \<Rightarrow> if s = [] then ''null'' else s)"
  by (simp add: getItem_def js_or_def split: option.splits)

text \<open>
  Claim C9.  \<open>loadUser\<close> returns a value for every content of \<open>localStorage\<close> (its result
  type has no exception: the \<open>catch\<close> turns every one into \<open>null\<close>).  When the key
  \<open>ai_user\<close> is absent, or holds a text that \<open>JSON.parse\<close> rejects, it returns \<open>null\<close> and
  the application starts on the Login screen; when the key holds a text that parses, it
  returns the parsed value.
\<close>

theorem loadUser_total:
  assumes "JSON_parse_facts P"
  shows "(ls ''ai_user'' = None \<longrightarrow> loadUser P ls = JNull \<and> App_start P ls = LoginScreen)
       \<and> (\<forall>s e. ls ''ai_user'' = Some s \<and> P s = Inl e \<longrightarrow>
             loadUser P ls = JNull \<and> App_start P ls = LoginScreen)
       \<and> (\<forall>s user. ls ''ai_user'' = Some s \<and> P s = Inr user \<longrightarrow> loadUser P ls = user)"
  using assms
  by (auto simp: JSON_parse_facts_def loadUser_def App_start_def parse_arg)

theorem loadUser_total_witness:
  "JSON_parse_facts parse_literal
   \<and> loadUser parse_literal no_session = JNull
   \<and> App_start parse_literal no_session = LoginScreen
   \<and> loadUser parse_literal (stored_session ''{name:'') = JNull
   \<and> App_start parse_literal (stored_session ''{name:'') = LoginScreen
   \<and> loadUser parse_literal (stored_session ''true'') = JBool True"
proof -
  have f: "JSON_parse_facts parse_literal"
    by (simp add: JSON_parse_facts_def parse_literal_def)
  have a: "no_session ''ai_user'' = None" by (simp add: no_session_def)
  have b: "stored_session ''{name:'' ''ai_user'' = Some ''{name:''
           \<and> parse_literal ''{name:'' = Inl SyntaxError"
    by (simp add: stored_session_def parse_literal_def)
  have c: "stored_session ''true'' ''ai_user'' = Some ''true''
           \<and> parse_literal ''true'' = Inr (JBool True)"
    by (simp add: stored_session_def parse_literal_def)
  show ?thesis
    using f a b c loadUser_total [OF f, of no_session]
      loadUser_total [OF f, of "stored_session ''{name:''"]
      loadUser_total [OF f, of "stored_session ''true''"]
    by blast
qed

subsection \<open>C2: a blank refinement prompt is rejected before anything is sent\<close>

text \<open>
  Claim C2, as the code has it.  When the prompt is empty or only white space,
  \<open>SectionCard.refine\<close> alerts "Enter a refinement instruction" and the Refine button of
  RefinementEditor (which trims the input and calls \<open>sendRefinement\<close>) alerts
  "Enter a refinement prompt."; \<open>sendRefinement\<close> itself does so for the empty prompt.  The
  state after the call is the state before it with that one alert added: no request was
  sent, and the document, with every section's text and refinements, is as it was.
  The prompts rejected are all those made of white space only, in the sense of
  \<open>String.prototype.trim\<close>: a prompt trims to the empty string exactly when it is a sequence
  of the code points of \<open>white_space\<close>, so a prompt of no-break spaces, ideographic spaces
  or line separators is rejected as one of blanks and tabs is.
\<close>

theorem blank_prompt_rejected:
  "(trim (refinePrompt st) = [] \<longrightarrow>
      refine net sec st = st\<lparr>alerts := alerts st @ [''Enter a refinement instruction'']\<rparr>)
   \<and> (trim input = [] \<longrightarrow>
      refine_click net sid input ed = ed\<lparr>ed_alerts := ed_alerts ed @ [''Enter a refinement prompt.'']\<rparr>)
   \<and> sendRefinement net sid [] ed = ed\<lparr>ed_alerts := ed_alerts ed @ [''Enter a refinement prompt.'']\<rparr>
   \<and> (set ws \<subseteq> set white_space \<and> refinePrompt st = concat ws \<longrightarrow>
      refine net sec st = st\<lparr>alerts := alerts st @ [''Enter a refinement instruction'']\<rparr>)
   \<and> (set ws \<subseteq> set white_space \<and> input = concat ws \<longrightarrow>
      refine_click net sid input ed = ed\<lparr>ed_alerts := ed_alerts ed @ [''Enter a refinement prompt.'']\<rparr>)
   \<and> (trim input = [] \<longleftrightarrow> (\<exists>vs. set vs \<subseteq> set white_space \<and> input = concat vs))"
proof -
  have a: "trim (refinePrompt st) = [] \<longrightarrow>
      refine net sec st = st\<lparr>alerts := alerts st @ [''Enter a refinement instruction'']\<rparr>"
    by (simp add: refine_def alert_def)
  have b: "trim input = [] \<longrightarrow>
      refine_click net sid input ed = ed\<lparr>ed_alerts := ed_alerts ed @ [''Enter a refinement prompt.'']\<rparr>"
    by (simp add: refine_click_def sendRefinement_def ed_alert_def)
  have c: "sendRefinement net sid [] ed = ed\<lparr>ed_alerts := ed_alerts ed @ [''Enter a refinement prompt.'']\<rparr>"
    by (simp add: sendRefinement_def ed_alert_def)
  have d: "set ws \<subseteq> set white_space \<and> refinePrompt st = concat ws \<longrightarrow>
      refine net sec st = st\<lparr>alerts := alerts st @ [''Enter a refinement instruction'']\<rparr>"
    using a trim_blank [of ws] by auto
  have e: "set ws \<subseteq> set white_space \<and> input = concat ws \<longrightarrow>
      refine_click net sid input ed = ed\<lparr>ed_alerts := ed_alerts ed @ [''Enter a refinement prompt.'']\<rparr>"
    using b trim_blank [of ws] by auto
  have f: "trim input = [] \<longleftrightarrow> (\<exists>vs. set vs \<subseteq> set white_space \<and> input = concat vs)"
    by (rule trim_empty_iff)
  from a b c d e f show ?thesis by blast
qed

text \<open>
  A card whose prompt is three blanks, and one whose prompt is a no-break space, an
  ideographic space, a line separator and a byte order mark; the editor with a blank and a
  tab, and with a no-break space and an ideographic space.
\<close>

theorem blank_prompt_rejected_witness:
  "trim (refinePrompt ex_blank_view) = []
   \<and> refine offline ex_section1 ex_blank_view =
       ex_blank_view\<lparr>alerts := [''Enter a refinement instruction'']\<rparr>
   \<and> sent (refine offline ex_section1 ex_blank_view) = []
   \<and> current (refine offline ex_section1 ex_blank_view) = ex_doc
   \<and> trim [CHR 0x20, CHR 0x09] = []
   \<and> refine_click offline (JNum 1) [CHR 0x20, CHR 0x09] ex_editor =
       ex_editor\<lparr>ed_alerts := [''Enter a refinement prompt.'']\<rparr>
   \<and> trim (refinePrompt ex_nbsp_view) = []
   \<and> refine offline ex_section1 ex_nbsp_view =
       ex_nbsp_view\<lparr>alerts := [''Enter a refinement instruction'']\<rparr>
   \<and> sent (refine offline ex_section1 ex_nbsp_view) = []
   \<and> current (refine offline ex_section1 ex_nbsp_view) = ex_doc
   \<and> trim [CHR 0xC2, CHR 0xA0, CHR 0xE3, CHR 0x80, CHR 0x80] = []
   \<and> refine_click offline (JNum 1) [CHR 0xC2, CHR 0xA0, CHR 0xE3, CHR 0x80, CHR 0x80] ex_editor =
       ex_editor\<lparr>ed_alerts := [''Enter a refinement prompt.'']\<rparr>"
proof -
  have a: "trim (refinePrompt ex_blank_view) = []"
    by (simp add: ex_blank_view_def ex_view_def trim_eval)
  have b: "trim [CHR 0x20, CHR 0x09] = []"
    by (simp add: trim_eval)
  have c: "alerts ex_blank_view = [] \<and> sent ex_blank_view = [] \<and> current ex_blank_view = ex_doc
           \<and> ed_alerts ex_editor = []"
    by (simp add: ex_blank_view_def ex_view_def ex_editor_def)
  have d: "set [[CHR 0xC2, CHR 0xA0], [CHR 0xE3, CHR 0x80, CHR 0x80], [CHR 0xE2, CHR 0x80, CHR 0xA8],
                [CHR 0xEF, CHR 0xBB, CHR 0xBF]] \<subseteq> set white_space
           \<and> refinePrompt ex_nbsp_view =
               concat [[CHR 0xC2, CHR 0xA0], [CHR 0xE3, CHR 0x80, CHR 0x80], [CHR 0xE2, CHR 0x80, CHR 0xA8],
                       [CHR 0xEF, CHR 0xBB, CHR 0xBF]]"
    by (simp add: ex_nbsp_view_def ex_view_def white_space_def)
  have e: "set [[CHR 0xC2, CHR 0xA0], [CHR 0xE3, CHR 0x80, CHR 0x80]] \<subseteq> set white_space
           \<and> [CHR 0xC2, CHR 0xA0, CHR 0xE3, CHR 0x80, CHR 0x80] =
               concat [[CHR 0xC2, CHR 0xA0], [CHR 0xE3, CHR 0x80, CHR 0x80]]"
    by (simp add: white_space_def)
  have f: "trim (refinePrompt ex_nbsp_view) = []"
    by (simp add: ex_nbsp_view_def ex_view_def trim_eval)
  have g: "trim [CHR 0xC2, CHR 0xA0, CHR 0xE3, CHR 0x80, CHR 0x80] = []"
    by (simp add: trim_eval)
  have h: "alerts ex_nbsp_view = [] \<and> sent ex_nbsp_view = [] \<and> current ex_nbsp_view = ex_doc"
    by (simp add: ex_nbsp_view_def ex_view_def)
  have i: "refine offline ex_section1 ex_blank_view =
             ex_blank_view\<lparr>alerts := [''Enter a refinement instruction'']\<rparr>
           \<and> refine_click offline (JNum 1) [CHR 0x20, CHR 0x09] ex_editor =
             ex_editor\<lparr>ed_alerts := [''Enter a refinement prompt.'']\<rparr>"
    using a b c
      blank_prompt_rejected [of ex_blank_view offline ex_section1 "[CHR 0x20, CHR 0x09]" "JNum 1"
        ex_editor "[]"]
    by simp
  have j: "refine offline ex_section1 ex_nbsp_view =
             ex_nbsp_view\<lparr>alerts := [''Enter a refinement instruction'']\<rparr>"
    using d h
      blank_prompt_rejected [of ex_nbsp_view offline ex_section1 "[]" "JNum 1" ex_editor
        "[[CHR 0xC2, CHR 0xA0], [CHR 0xE3, CHR 0x80, CHR 0x80], [CHR 0xE2, CHR 0x80, CHR 0xA8],
          [CHR 0xEF, CHR 0xBB, CHR 0xBF]]"]
    by simp
  have k: "refine_click offline (JNum 1) [CHR 0xC2, CHR 0xA0, CHR 0xE3, CHR 0x80, CHR 0x80] ex_editor =
             ex_editor\<lparr>ed_alerts := [''Enter a refinement prompt.'']\<rparr>"
    using e c
      blank_prompt_rejected [of ex_nbsp_view offline ex_section1
        "[CHR 0xC2, CHR 0xA0, CHR 0xE3, CHR 0x80, CHR 0x80]" "JNum 1" ex_editor
        "[[CHR 0xC2, CHR 0xA0], [CHR 0xE3, CHR 0x80, CHR 0x80]]"]
    by simp
  from i have i1: "sent (refine offline ex_section1 ex_blank_view) = []
                   \<and> current (refine offline ex_section1 ex_blank_view) = ex_doc"
    using c by simp
  from j have j1: "sent (refine offline ex_section1 ex_nbsp_view) = []
                   \<and> current (refine offline ex_section1 ex_nbsp_view) = ex_doc"
    using h by simp
  from a b f g i j k i1 j1 show ?thesis by blast
qed

text \<open>
  The message is not the one the claim words: a card with a blank prompt alerts
  "Enter a refinement instruction", and the editor's text ends with a full stop.
\<close>

theorem blank_prompt_message_counterexample:
  "trim (refinePrompt ex_blank_view) = []
   \<and> alerts (refine offline ex_section1 ex_blank_view) = [''Enter a refinement instruction'']
   \<and> alerts (refine offline ex_section1 ex_blank_view) \<noteq> [''Enter a refinement prompt'']
   \<and> ed_alerts (sendRefinement offline (JNum 1) [] ex_editor) = [''Enter a refinement prompt.'']
   \<and> ed_alerts (sendRefinement offline (JNum 1) [] ex_editor) \<noteq> [''Enter a refinement prompt'']"
  by (simp add: refine_def sendRefinement_def alert_def ed_alert_def ex_blank_view_def ex_view_def
      ex_editor_def trim_eval)

subsection \<open>C8: which key of an error body each handler reads\<close>

lemma handleResponse_failure:
  assumes "\<not> ok res" and "content_type res = Some ct" and "includes_str ct ''application/json''"
    and "json_body res = Some (JObj kvs)"
  shows "handleResponse res =
           Inl \<lparr>err_message =
                  to_string (js_or (lookup kvs ''detail'')
                    (js_or (lookup kvs ''message'') (JStr (''HTTP '' @ show_nat (status res))))),
                err_status = status res, err_body = JObj kvs\<rparr>"
proof -
  have "to_string (js_or (JStr ct) (JStr [])) = ct"
    by (simp add: js_or_def)
  with assms show ?thesis
    by (simp add: handleResponse_def Let_def opt_get_def)
qed

lemma refine_failure_response:
  assumes "trim (refinePrompt st) \<noteq> []"
    and "get_prop sec ''id'' = Inr sid" and "get_prop sec ''text'' = Inr cur"
    and "net (refine_request sid cur (refinePrompt st)) = Resolved res"
    and "\<not> ok res" and "json_body res = Some (JObj kvs)"
  shows "refine net sec st =
           st\<lparr>alerts := alerts st @ [to_string (js_or (lookup kvs ''error'') (JStr ''Refine failed''))],
              sent := sent st @ [refine_request sid cur (refinePrompt st)],
              loadingRefine := False\<rparr>"
  using assms
  by (simp add: refine_def refine_try_def fetch_def alert_def Let_def)

lemma ex_checks:
  "\<not> ok (ex_error_response k)"
  "json_body (ex_error_response k) = Some (JObj [(k, JStr ''Quota exceeded'')])"
  "content_type (ex_error_response k) = Some ''application/json''"
  "status (ex_error_response k) = 500"
  by (simp_all add: ex_error_response_def ok_def)

lemma show_500: "show_nat 500 = ''500''"
  by (simp add: show_nat.simps)

lemma includes_json: "includes_str ''application/json'' ''application/json''"
  by simp

text \<open>
  Claim C8, as the code has it.  For a non-2xx response whose JSON body is an object
  carrying a non-empty message: \<open>handleResponse\<close> (services/api.js) surfaces the message
  under \<open>detail\<close>, as the thrown error's \<open>message\<close> and as the text the pages show; a
  message under \<open>error\<close> alone stays in the thrown \<open>body\<close> while the text shown is
  "HTTP" and the status.  \<open>SectionCard.refine\<close> (app.js) alerts the message under \<open>error\<close>;
  for a body with \<open>detail\<close> and no \<open>error\<close> it alerts "Refine failed".
\<close>

theorem error_key_per_handler:
  assumes "\<not> ok res" and "json_body res = Some (JObj kvs)" and "msg \<noteq> []"
  shows
    "(content_type res = Some ct \<and> includes_str ct ''application/json'' \<and>
      lookup kvs ''detail'' = JStr msg \<longrightarrow>
        (\<exists>err. handleResponse res = Inl err \<and> err_message err = msg \<and> shown_error err = msg))
     \<and> (content_type res = Some ct \<and> includes_str ct ''application/json'' \<and>
      lookup kvs ''error'' = JStr msg \<and>
      \<not> truthy (lookup kvs ''detail'') \<and> \<not> truthy (lookup kvs ''message'') \<longrightarrow>
        (\<exists>err. handleResponse res = Inl err \<and> err_body err = JObj kvs \<and>
               err_message err = ''HTTP '' @ show_nat (status res) \<and>
               shown_error err = ''HTTP '' @ show_nat (status res)))
     \<and> (trim (refinePrompt st) \<noteq> [] \<and>
      get_prop sec ''id'' = Inr sid \<and> get_prop sec ''text'' = Inr cur \<and>
      net (refine_request sid cur (refinePrompt st)) = Resolved res \<and>
      lookup kvs ''error'' = JStr msg \<longrightarrow>
        alerts (refine net sec st) = alerts st @ [msg])
     \<and> (trim (refinePrompt st) \<noteq> [] \<and>
      get_prop sec ''id'' = Inr sid \<and> get_prop sec ''text'' = Inr cur \<and>
      net (refine_request sid cur (refinePrompt st)) = Resolved res \<and>
      lookup kvs ''detail'' = JStr msg \<and> \<not> truthy (lookup kvs ''error'') \<longrightarrow>
        alerts (refine net sec st) = alerts st @ [''Refine failed''])"
proof (intro conjI impI)
  assume a: "content_type res = Some ct \<and> includes_str ct ''application/json'' \<and>
      lookup kvs ''detail'' = JStr msg"
  then show "\<exists>err. handleResponse res = Inl err \<and> err_message err = msg \<and> shown_error err = msg"
    using assms handleResponse_failure [of res ct kvs]
    by (simp add: js_or_def shown_error_def opt_get_def)
next
  assume a: "content_type res = Some ct \<and> includes_str ct ''application/json'' \<and>
      lookup kvs ''error'' = JStr msg \<and>
      \<not> truthy (lookup kvs ''detail'') \<and> \<not> truthy (lookup kvs ''message'')"
  then show "\<exists>err. handleResponse res = Inl err \<and> err_body err = JObj kvs \<and>
               err_message err = ''HTTP '' @ show_nat (status res) \<and>
               shown_error err = ''HTTP '' @ show_nat (status res)"
    using assms handleResponse_failure [of res ct kvs]
    by (simp add: js_or_def shown_error_def opt_get_def)
next
  assume a: "trim (refinePrompt st) \<noteq> [] \<and>
      get_prop sec ''id'' = Inr sid \<and> get_prop sec ''text'' = Inr cur \<and>
      net (refine_request sid cur (refinePrompt st)) = Resolved res \<and>
      lookup kvs ''error'' = JStr msg"
  then show "alerts (refine net sec st) = alerts st @ [msg]"
    using assms refine_failure_response [of st sec sid cur net res kvs]
    by (simp add: js_or_def)
next
  assume a: "trim (refinePrompt st) \<noteq> [] \<and>
      get_prop sec ''id'' = Inr sid \<and> get_prop sec ''text'' = Inr cur \<and>
      net (refine_request sid cur (refinePrompt st)) = Resolved res \<and>
      lookup kvs ''detail'' = JStr msg \<and> \<not> truthy (lookup kvs ''error'')"
  then show "alerts (refine net sec st) = alerts st @ [''Refine failed'']"
    using assms refine_failure_response [of st sec sid cur net res kvs]
    by (simp add: js_or_def)
qed

theorem error_key_per_handler_witness:
  "\<not> ok (ex_error_response ''detail'') \<and> \<not> ok (ex_error_response ''error'')
   \<and> (\<exists>err. handleResponse (ex_error_response ''detail'') = Inl err \<and>
             shown_error err = ''Quota exceeded'')
   \<and> (\<exists>err. handleResponse (ex_error_response ''error'') = Inl err \<and>
             shown_error err = ''HTTP 500'')
   \<and> alerts (refine (answering (ex_error_response ''error'')) ex_section1 ex_view) =
       [''Quota exceeded'']
   \<and> alerts (refine (answering (ex_error_response ''detail'')) ex_section1 ex_view) =
       [''Refine failed'']"
proof -
  have p: "trim (refinePrompt ex_view) \<noteq> []" "alerts ex_view = []"
    "get_prop ex_section1 ''id'' = Inr (JNum 1)"
    "get_prop ex_section1 ''text'' = Inr (JStr ''first draft'')"
    by (simp_all add: ex_view_def ex_section1_def trim_eval lookup_def)
  have q: "''Quota exceeded'' \<noteq> []" by simp
  have l: "lookup [(''detail'', JStr ''Quota exceeded'')] ''detail'' = JStr ''Quota exceeded''"
    "lookup [(''error'', JStr ''Quota exceeded'')] ''error'' = JStr ''Quota exceeded''"
    "\<not> truthy (lookup [(''error'', JStr ''Quota exceeded'')] ''detail'')"
    "\<not> truthy (lookup [(''error'', JStr ''Quota exceeded'')] ''message'')"
    "\<not> truthy (lookup [(''detail'', JStr ''Quota exceeded'')] ''error'')"
    by (simp_all add: lookup_def)
  note d = error_key_per_handler [OF ex_checks(1) ex_checks(2) q, of "''detail''"
      "''application/json''" ex_view ex_section1 "JNum 1" "JStr ''first draft''"
      "answering (ex_error_response ''detail'')"]
  note e = error_key_per_handler [OF ex_checks(1) ex_checks(2) q, of "''error''"
      "''application/json''" ex_view ex_section1 "JNum 1" "JStr ''first draft''"
      "answering (ex_error_response ''error'')"]
  show ?thesis
    using d e p l by (auto simp: ex_checks show_500 answering_def)
qed

text \<open>
  Neither handler accepts both keys: \<open>handleResponse\<close> shows "HTTP 500" for the body
  \<open>{error: "Quota exceeded"}\<close>, and \<open>refine\<close> alerts "Refine failed" for
  \<open>{detail: "Quota exceeded"}\<close>.
\<close>

theorem error_shape_counterexample:
  "\<not> ok (ex_error_response ''error'')
   \<and> handleResponse (ex_error_response ''error'') =
       Inl \<lparr>err_message = ''HTTP 500'', err_status = 500,
            err_body = JObj [(''error'', JStr ''Quota exceeded'')]\<rparr>
   \<and> shown_error \<lparr>err_message = ''HTTP 500'', err_status = 500,
            err_body = JObj [(''error'', JStr ''Quota exceeded'')]\<rparr> = ''HTTP 500''
   \<and> \<not> ok (ex_error_response ''detail'')
   \<and> alerts (refine (answering (ex_error_response ''detail'')) ex_section1 ex_view) =
       [''Refine failed'']"
  using handleResponse_failure [OF ex_checks(1) ex_checks(3) includes_json ex_checks(2), of "''error''"]
    refine_failure_response [of ex_view ex_section1 "JNum 1" "JStr ''first draft''"
      "answering (ex_error_response ''detail'')" "ex_error_response ''detail''"
      "[(''detail'', JStr ''Quota exceeded'')]"]
  by (simp add: ex_checks show_500 js_or_def lookup_def shown_error_def opt_get_def
      ex_view_def ex_section1_def answering_def trim_eval)

subsection \<open>updateSection on a well-formed document\<close>





subsection \<open>C6: feedback is overwritten, the latest value wins\<close>






subsection \<open>The store: reading and replacing sections\<close>

lemma find_map_same_key:
  assumes "\<And>s. key (f s) = key s"
  shows "find (\<lambda>s. key s = k) (map (\<lambda>s. if key s = k0 then f s else s) xs) =
           map_option (\<lambda>s. if k = k0 then f s else s) (find (\<lambda>s. key s = k) xs)"
  using assms by (induction xs) auto

lemma find_section_update:
  assumes "\<And>s. sec_id (f s) = sec_id s"
  shows "find_section (update_section sid0 f db) sid =
           map_option (\<lambda>s. if sid = sid0 then f s else s) (find_section db sid)"
  using find_map_same_key [where key = sec_id and f = f, OF assms]
  by (simp add: find_section_def update_section_def)

lemma find_section_fields [simp]:
  "find_section (db\<lparr>next_id := n\<rparr>) sid = find_section db sid"
  "find_section (db\<lparr>provider_calls := c\<rparr>) sid = find_section db sid"
  "find_section (db\<lparr>documents := ds\<rparr>) sid = find_section db sid"
  by (simp_all add: find_section_def)

lemma history_fields [simp]:
  "history (db\<lparr>next_id := n\<rparr>) sid = history db sid"
  "history (db\<lparr>provider_calls := c\<rparr>) sid = history db sid"
  "history (db\<lparr>documents := ds\<rparr>) sid = history db sid"
  by (simp_all add: history_def)

lemma history_update:
  assumes "\<And>s. sec_id (f s) = sec_id s"
  shows "history (update_section sid0 f db) sid =
           (case find_section db sid of
              None \<Rightarrow> []
            | Some s \<Rightarrow> if sid = sid0 then refinements (f s) else refinements s)"
  by (simp add: history_def find_section_update [OF assms] split: option.splits)

lemma find_append:
  "find P (xs @ ys) = (case find P xs of None \<Rightarrow> find P ys | Some x \<Rightarrow> Some x)"
  by (induction xs) auto

lemma history_append_sections:
  "prefix (history db sid) (history (db\<lparr>sections := sections db @ new\<rparr>) sid)"
  by (cases "find (\<lambda>s. sec_id s = sid) (sections db)")
     (simp_all add: history_def find_section_def find_append)

lemma revise_result:
  "revise T now sid0 instr input db =
     (case T (provider_calls db) instr input of
        Inl cause \<Rightarrow> (Inl (RefinementError cause), db\<lparr>provider_calls := provider_calls db + 1\<rparr>)
      | Inr revised \<Rightarrow>
          (let db2 = update_section sid0
                 (\<lambda>s. s\<lparr>sec_text := revised,
                        refinements := refinements s @
                          [\<lparr>ref_id = next_id db, ref_prompt = instr,
                            ref_revised_text = revised, ref_created_at = now\<rparr>]\<rparr>)
                 (db\<lparr>provider_calls := provider_calls db + 1, next_id := next_id db + 1\<rparr>)
           in (Inr (revised, history db2 sid0), db2)))"
  by (simp add: revise_def Let_def split: sum.splits)

lemma revise_history:
  "history (snd (revise T now sid0 instr input db)) sid =
     (case T (provider_calls db) instr input of
        Inl cause \<Rightarrow> history db sid
      | Inr revised \<Rightarrow>
          (if sid = sid0 \<and> find_section db sid \<noteq> None
           then history db sid @ [\<lparr>ref_id = next_id db, ref_prompt = instr,
                                   ref_revised_text = revised, ref_created_at = now\<rparr>]
           else history db sid))"
proof (cases "T (provider_calls db) instr input")
  case (Inl cause)
  then show ?thesis by (simp add: revise_result)
next
  case (Inr revised)
  then show ?thesis
    apply (simp add: revise_result Let_def history_update)
    apply (auto simp: history_def split: option.splits)
    done
qed

lemma revise_prefix: "prefix (history db sid) (history (snd (revise T now sid0 instr input db)) sid)"
  by (simp add: revise_history split: sum.splits)

lemma generate_pages_sections:
  "\<exists>new. sections (snd (generate_pages T rules did p theme i n db)) = sections db @ new"
proof (induction n arbitrary: i db)
  case 0
  then show ?case by simp
next
  case (Suc n)
  show ?case
  proof (cases "T (provider_calls db) (page_instruction rules p theme i) p")
    case (Inl cause)
    then show ?thesis by simp
  next
    case (Inr out)
    let ?db = "db\<lparr>sections := sections db @ [new_page rules did p (next_id db) i out],
                  next_id := next_id db + 1, provider_calls := provider_calls db + 1\<rparr>"
    from Suc.IH [of "Suc i" ?db] obtain new where
      "sections (snd (generate_pages T rules did p theme (Suc i) n ?db)) = sections ?db @ new"
      by blast
    with Inr show ?thesis by simp
  qed
qed

lemma history_sections_cong: "sections db' = sections db \<Longrightarrow> history db' sid = history db sid"
  by (simp add: history_def find_section_def)

lemma generateDocument_prefix:
  "prefix (history db sid) (history (snd (generateDocument T rules did p theme k db)) sid)"
proof (cases "k \<le> 0 \<or> p = []")
    case True
    then show ?thesis by (simp add: generateDocument_def)
  next
    case False
    show ?thesis
    proof (cases "find_document db did")
      case None
      with False show ?thesis by (simp add: generateDocument_def)
    next
      case (Some d)
      let ?db0 = "db\<lparr>documents := map (\<lambda>x. if doc_id x = did
            then d\<lparr>gen_prompt := p, gen_theme := theme, gen_pages := k\<rparr> else x) (documents db)\<rparr>"
      obtain new where n: "sections (snd (generate_pages T rules did p theme 0 (nat k) ?db0)) =
                          sections ?db0 @ new"
        using generate_pages_sections by blast
      have "snd (generateDocument T rules did p theme k db) =
              snd (generate_pages T rules did p theme 0 (nat k) ?db0)"
        using False Some by (simp add: generateDocument_def Let_def split: prod.splits option.splits)
      moreover have "history (snd (generate_pages T rules did p theme 0 (nat k) ?db0)) sid =
                       history (db\<lparr>sections := sections db @ new\<rparr>) sid"
        by (rule history_sections_cong) (simp add: n)
      ultimately show ?thesis by (simp add: history_append_sections)
  qed
qed

lemma run_op_prefix: "prefix (history db sid) (history (run_op T rules fresh op db) sid)"
proof (cases op)
  case (OpCreate now ttl ownerId)
  then show ?thesis
    by (simp add: createDocument_def Let_def history_def find_section_def)
next
  case (OpGenerate did p theme k)
  then show ?thesis by (simp add: generateDocument_prefix)
next
  case (OpRefine now sid0 p cur)
  then show ?thesis
    by (simp add: refine_service_def revise_prefix split: option.splits)
next
  case (OpRegenerate now sid0)
  then show ?thesis
    by (simp add: regenerate_service_def revise_prefix split: option.splits)
next
  case (OpFeedback sid0 liked)
  then show ?thesis
    apply (simp add: setFeedback_def history_update split: option.splits)
    apply (auto simp: history_def)
    done
next
  case (OpComment now sid0 c)
  then show ?thesis
    apply (simp add: addComment_def Let_def history_update split: option.splits)
    apply (auto simp: history_def)
    done
qed

lemma run_ops_prefix: "prefix (history db sid) (history (run_ops T rules fresh ops db) sid)"
proof (induction ops arbitrary: db)
  case Nil
  then show ?case by (simp add: run_ops_def)
next
  case (Cons op ops)
  have "prefix (history db sid) (history (run_op T rules fresh op db) sid)"
    by (rule run_op_prefix)
  also have "prefix \<dots> (history (run_ops T rules fresh ops (run_op T rules fresh op db)) sid)"
    by (rule Cons.IH)
  finally show ?case by (simp add: run_ops_def)
qed

lemma refine_service_success:
  assumes "p \<noteq> []" and "find_section db sid = Some s"
    and "T (provider_calls db) p cur = Inr revised"
  shows "refine_service T now sid p cur db =
           (Inr (revised, history db sid @ [\<lparr>ref_id = next_id db, ref_prompt = p,
                                              ref_revised_text = revised, ref_created_at = now\<rparr>]),
            update_section sid
              (\<lambda>s. s\<lparr>sec_text := revised,
                     refinements := refinements s @
                       [\<lparr>ref_id = next_id db, ref_prompt = p,
                         ref_revised_text = revised, ref_created_at = now\<rparr>]\<rparr>)
              (db\<lparr>provider_calls := provider_calls db + 1, next_id := next_id db + 1\<rparr>))"
  using assms
  apply (simp add: refine_service_def revise_result Let_def history_update)
  apply (simp add: history_def)
  done

lemma update_section_fields [simp]:
  "provider_calls (update_section sid f db) = provider_calls db"
  "next_id (update_section sid f db) = next_id db"
  "documents (update_section sid f db) = documents db"
  by (simp_all add: update_section_def)

lemma refine_all_history:
  assumes "find_section db sid \<noteq> None" and "length outs = length calls"
    and "\<forall>i < length calls. fst (snd (calls ! i)) \<noteq> [] \<and>
           T (provider_calls db + i) (fst (snd (calls ! i))) (snd (snd (calls ! i))) = Inr (outs ! i)"
  shows "history (refine_all T sid calls db) sid =
           history db sid @
           map (\<lambda>i. \<lparr>ref_id = next_id db + i, ref_prompt = fst (snd (calls ! i)),
                     ref_revised_text = outs ! i, ref_created_at = fst (calls ! i)\<rparr>)
               [0..<length calls]"
  using assms
proof (induction calls arbitrary: db outs)
  case Nil
  then show ?case by (simp add: refine_all_def)
next
  case (Cons c calls)
  obtain now p cur where c: "c = (now, p, cur)" by (cases c)
  from Cons.prems(2) obtain out rest where outs: "outs = out # rest"
    and len: "length rest = length calls"
    by (cases outs) auto
  from Cons.prems(1) obtain s where s: "find_section db sid = Some s" by auto
  from Cons.prems(3) [rule_format, of 0] have p: "p \<noteq> []"
    and t: "T (provider_calls db) p cur = Inr out"
    by (simp_all add: c outs)
  let ?r = "\<lparr>ref_id = next_id db, ref_prompt = p, ref_revised_text = out, ref_created_at = now\<rparr>"
  let ?db = "update_section sid (\<lambda>s. s\<lparr>sec_text := out, refinements := refinements s @ [?r]\<rparr>)
               (db\<lparr>provider_calls := provider_calls db + 1, next_id := next_id db + 1\<rparr>)"
  have step: "snd (refine_service T now sid p cur db) = ?db"
    using refine_service_success [where T = T, OF p s t] by simp
  have f: "find_section ?db sid \<noteq> None"
    using s by (simp add: find_section_update)
  have h: "history ?db sid = history db sid @ [?r]"
    using s by (simp add: history_update) (simp add: history_def)
  have later: "\<forall>i < length calls. fst (snd (calls ! i)) \<noteq> [] \<and>
           T (provider_calls ?db + i) (fst (snd (calls ! i))) (snd (snd (calls ! i))) = Inr (rest ! i)"
  proof (intro allI impI)
    fix i assume "i < length calls"
    with Cons.prems(3) [rule_format, of "Suc i"]
    show "fst (snd (calls ! i)) \<noteq> [] \<and>
           T (provider_calls ?db + i) (fst (snd (calls ! i))) (snd (snd (calls ! i))) = Inr (rest ! i)"
      by (simp add: outs)
  qed
  have unfold: "refine_all T sid (c # calls) db = refine_all T sid calls ?db"
    by (simp add: refine_all_def c step)
  have m: "map (\<lambda>i. \<lparr>ref_id = next_id db + i, ref_prompt = fst (snd ((c # calls) ! i)),
                     ref_revised_text = outs ! i, ref_created_at = fst ((c # calls) ! i)\<rparr>)
               [0..<length (c # calls)] =
           ?r # map (\<lambda>i. \<lparr>ref_id = Suc (next_id db + i), ref_prompt = fst (snd (calls ! i)),
                     ref_revised_text = rest ! i, ref_created_at = fst (calls ! i)\<rparr>)
               [0..<length calls]"
    by (simp add: upt_conv_Cons map_Suc_upt [symmetric] outs c del: upt_Suc)
  let ?tail = "map (\<lambda>i. \<lparr>ref_id = Suc (next_id db + i), ref_prompt = fst (snd (calls ! i)),
                     ref_revised_text = rest ! i, ref_created_at = fst (calls ! i)\<rparr>)
               [0..<length calls]"
  have ih: "history (refine_all T sid calls ?db) sid = history ?db sid @ ?tail"
    using Cons.IH [OF f len later] by simp
  have "history (refine_all T sid (c # calls) db) sid = history (refine_all T sid calls ?db) sid"
    by (simp only: unfold)
  also have "\<dots> = (history db sid @ [?r]) @ ?tail"
    by (simp only: ih h)
  also have "\<dots> = history db sid @ ?r # ?tail"
    by simp
  finally show ?case
    by (simp only: m)
qed

subsection \<open>Both clients on a refinement response\<close>




lemma refine_failed:
  assumes "trim (refinePrompt st) \<noteq> []"
    and "get_prop sec ''id'' = Inr sid" and "get_prop sec ''text'' = Inr cur"
    and "net (refine_request sid cur (refinePrompt st)) = Rejected \<or>
         (\<exists>res. net (refine_request sid cur (refinePrompt st)) = Resolved res \<and> \<not> ok res)"
  shows "current (refine net sec st) = current st \<and>
         crashed (refine net sec st) = crashed st \<and>
         refinePrompt (refine net sec st) = refinePrompt st \<and>
         sent (refine net sec st) = sent st @ [refine_request sid cur (refinePrompt st)] \<and>
         length (alerts (refine net sec st)) = length (alerts st) + 1"
  using assms
  by (auto simp: refine_def refine_try_def fetch_def alert_def Let_def
      split: option.splits sum.splits)


lemma current_text_of_loading [simp]:
  "current_text_of (ed\<lparr>loading := b\<rparr>) sid = current_text_of ed sid"
  by (simp add: current_text_of_def Let_def)


lemma sendRefinement_failed:
  assumes "p \<noteq> []" and "current_text_of ed sid = Inr cur"
    and "net (editor_refine_request sid cur p) = Rejected \<or>
         (\<exists>res. net (editor_refine_request sid cur p) = Resolved res \<and> \<not> ok res)"
  shows "doc (sendRefinement net sid p ed) = doc ed \<and>
         localEdits (sendRefinement net sid p ed) = localEdits ed \<and>
         ed_crashed (sendRefinement net sid p ed) = ed_crashed ed \<and>
         ed_sent (sendRefinement net sid p ed) = ed_sent ed @ [editor_refine_request sid cur p] \<and>
         length (ed_alerts (sendRefinement net sid p ed)) = length (ed_alerts ed) + 1"
  using assms
  by (auto simp: sendRefinement_def sendRefinement_try_def ed_alert_def Let_def
      split: option.splits sum.splits)

lemma refine_service_failure:
  assumes "p \<noteq> []" and "find_section db sid = Some s"
    and "T (provider_calls db) p cur = Inl cause"
  shows "refine_service T now sid p cur db =
           (Inl (RefinementError cause), db\<lparr>provider_calls := provider_calls db + 1\<rparr>)"
  using assms by (simp add: refine_service_def revise_result)

subsection \<open>Facts about the example inputs\<close>

lemma ex_view_facts:
  "trim (refinePrompt ex_view) \<noteq> []"
  "get_prop ex_section1 ''id'' = Inr (JNum 1)"
  "get_prop ex_section1 ''text'' = Inr (JStr ''first draft'')"
  "js_or (lookup (own_props (current ex_view)) ''sections'') (JArr []) = JArr [ex_section1, ex_section2]"
  "\<forall>x \<in> set [ex_section1, ex_section2]. \<not> nullish x"
  "alerts ex_view = []" "sent ex_view = []" "current ex_view = ex_doc" "refinePrompt ex_view = ''Shorten''"
  by (simp_all add: ex_view_def ex_doc_def ex_section1_def ex_section2_def trim_eval
      lookup_def js_or_def nullish_def)

lemma ex_editor_facts:
  "current_text_of ex_editor (JNum 1) = Inr (JStr ''first draft'')"
  "get_prop (doc ex_editor) ''sections'' = Inr (JArr [ex_section1, ex_section2])"
  "ed_alerts ex_editor = []" "ed_sent ex_editor = []" "doc ex_editor = ex_doc"
  by (simp_all add: ex_editor_def ex_doc_def ex_section1_def ex_section2_def current_text_of_def
      getSectionById_def lookup_def nullish_def Let_def)

lemma ex_backend_facts:
  "find_section ex_backend 11 = Some (ex_row 11 0 ''Intro'')"
  "provider_calls ex_backend = 2" "history ex_backend 11 = []"
  by (simp_all add: ex_backend_def find_section_def history_def ex_row_def)


subsection \<open>C1: a successful refinement\<close>



subsection \<open>C3: a failed refinement changes nothing\<close>

text \<open>
  Claim C3.  Service (modelled from the spec): when the provider fails or times out,
  \<open>refine\<close> returns a RefinementError carrying the provider's cause; the sections of the
  store, the section's text and its history are unchanged, and the provider has been
  called exactly once (no retry).
  Clients (from the source): when the request is rejected by the network or answered with
  a non-2xx status, \<open>SectionCard.refine\<close> and \<open>RefinementEditor.sendRefinement\<close> leave the
  document (every section's text and refinements), the prompt and the local edits as they
  were, raise exactly one alert, and have sent exactly one request.
\<close>

theorem refine_failure_atomic:
  "(p \<noteq> [] \<and> find_section db sid = Some s \<and> T (provider_calls db) p cur = Inl cause \<longrightarrow>
      (\<exists>db'. refine_service T now sid p cur db = (Inl (RefinementError cause), db') \<and>
             sections db' = sections db \<and> history db' sid = history db sid \<and>
             find_section db' sid = Some s \<and>
             provider_calls db' = provider_calls db + 1))
   \<and> (trim (refinePrompt st) \<noteq> [] \<and>
       get_prop sec ''id'' = Inr cid \<and> get_prop sec ''text'' = Inr ctext \<and>
       (net (refine_request cid ctext (refinePrompt st)) = Rejected \<or>
        (\<exists>res. net (refine_request cid ctext (refinePrompt st)) = Resolved res \<and> \<not> ok res)) \<longrightarrow>
      current (refine net sec st) = current st \<and>
      crashed (refine net sec st) = crashed st \<and>
      refinePrompt (refine net sec st) = refinePrompt st \<and>
      sent (refine net sec st) = sent st @ [refine_request cid ctext (refinePrompt st)] \<and>
      length (alerts (refine net sec st)) = length (alerts st) + 1)
   \<and> (q \<noteq> [] \<and> current_text_of ed cid = Inr ctext \<and>
       (net (editor_refine_request cid ctext q) = Rejected \<or>
        (\<exists>res. net (editor_refine_request cid ctext q) = Resolved res \<and> \<not> ok res)) \<longrightarrow>
      doc (sendRefinement net cid q ed) = doc ed \<and>
      localEdits (sendRefinement net cid q ed) = localEdits ed \<and>
      ed_crashed (sendRefinement net cid q ed) = ed_crashed ed \<and>
      ed_sent (sendRefinement net cid q ed) = ed_sent ed @ [editor_refine_request cid ctext q] \<and>
      length (ed_alerts (sendRefinement net cid q ed)) = length (ed_alerts ed) + 1)"
proof (intro conjI impI)
  assume a: "p \<noteq> [] \<and> find_section db sid = Some s \<and> T (provider_calls db) p cur = Inl cause"
  then have "refine_service T now sid p cur db =
           (Inl (RefinementError cause), db\<lparr>provider_calls := provider_calls db + 1\<rparr>)"
    using refine_service_failure [where T = T, of p db sid s cur cause now] by simp
  with a show "\<exists>db'. refine_service T now sid p cur db = (Inl (RefinementError cause), db') \<and>
             sections db' = sections db \<and> history db' sid = history db sid \<and>
             find_section db' sid = Some s \<and>
             provider_calls db' = provider_calls db + 1"
    by simp
next
  assume a: "trim (refinePrompt st) \<noteq> [] \<and>
       get_prop sec ''id'' = Inr cid \<and> get_prop sec ''text'' = Inr ctext \<and>
       (net (refine_request cid ctext (refinePrompt st)) = Rejected \<or>
        (\<exists>res. net (refine_request cid ctext (refinePrompt st)) = Resolved res \<and> \<not> ok res))"
  then have "current (refine net sec st) = current st \<and>
         crashed (refine net sec st) = crashed st \<and>
         refinePrompt (refine net sec st) = refinePrompt st \<and>
         sent (refine net sec st) = sent st @ [refine_request cid ctext (refinePrompt st)] \<and>
         length (alerts (refine net sec st)) = length (alerts st) + 1"
    using refine_failed [where net = net, of st sec cid ctext] by simp
  then show "current (refine net sec st) = current st"
    and "crashed (refine net sec st) = crashed st"
    and "refinePrompt (refine net sec st) = refinePrompt st"
    and "sent (refine net sec st) = sent st @ [refine_request cid ctext (refinePrompt st)]"
    and "length (alerts (refine net sec st)) = length (alerts st) + 1"
    by simp_all
next
  assume a: "q \<noteq> [] \<and> current_text_of ed cid = Inr ctext \<and>
       (net (editor_refine_request cid ctext q) = Rejected \<or>
        (\<exists>res. net (editor_refine_request cid ctext q) = Resolved res \<and> \<not> ok res))"
  then have "doc (sendRefinement net cid q ed) = doc ed \<and>
         localEdits (sendRefinement net cid q ed) = localEdits ed \<and>
         ed_crashed (sendRefinement net cid q ed) = ed_crashed ed \<and>
         ed_sent (sendRefinement net cid q ed) = ed_sent ed @ [editor_refine_request cid ctext q] \<and>
         length (ed_alerts (sendRefinement net cid q ed)) = length (ed_alerts ed) + 1"
    using sendRefinement_failed [where net = net, of q ed cid ctext] by simp
  then show "doc (sendRefinement net cid q ed) = doc ed"
    and "localEdits (sendRefinement net cid q ed) = localEdits ed"
    and "ed_crashed (sendRefinement net cid q ed) = ed_crashed ed"
    and "ed_sent (sendRefinement net cid q ed) = ed_sent ed @ [editor_refine_request cid ctext q]"
    and "length (ed_alerts (sendRefinement net cid q ed)) = length (ed_alerts ed) + 1"
    by simp_all
qed

theorem refine_failure_atomic_witness:
  "find_section ex_backend 11 = Some (ex_row 11 0 ''Intro'')
   \<and> failing_provider (provider_calls ex_backend) ''Shorten'' ''first draft'' = Inl ''quota exceeded''
   \<and> refine_service failing_provider 5 11 ''Shorten'' ''first draft'' ex_backend =
       (Inl (RefinementError ''quota exceeded''), ex_backend\<lparr>provider_calls := 3\<rparr>)
   \<and> \<not> ok (ex_error_response ''error'')
   \<and> current (refine (answering (ex_error_response ''error'')) ex_section1 ex_view) = ex_doc
   \<and> alerts (refine (answering (ex_error_response ''error'')) ex_section1 ex_view) =
       [''Quota exceeded'']
   \<and> length (sent (refine (answering (ex_error_response ''error'')) ex_section1 ex_view)) = 1
   \<and> current (refine offline ex_section1 ex_view) = ex_doc
   \<and> alerts (refine offline ex_section1 ex_view) = [''Refine failed'']
   \<and> doc (sendRefinement offline (JNum 1) ''Shorten'' ex_editor) = ex_doc
   \<and> ed_alerts (sendRefinement offline (JNum 1) ''Shorten'' ex_editor) =
       [''Refinement request failed.'']"
proof -
  have h1: "''Shorten'' \<noteq> [] \<and> find_section ex_backend 11 = Some (ex_row 11 0 ''Intro'') \<and>
            failing_provider (provider_calls ex_backend) ''Shorten'' ''first draft'' = Inl ''quota exceeded''"
    by (simp add: ex_backend_facts failing_provider_def)
  have e: "\<not> ok (ex_error_response ''error'')"
    by (simp add: ex_error_response_def ok_def)
  note t = refine_failure_atomic [where T = failing_provider and db = ex_backend and sid = 11
      and p = "''Shorten''" and cur = "''first draft''" and cause = "''quota exceeded''"
      and s = "ex_row 11 0 ''Intro''" and now = 5 and st = ex_view and sec = ex_section1
      and cid = "JNum 1" and ctext = "JStr ''first draft''" and q = "''Shorten''" and ed = ex_editor]
  from t [where net = offline, THEN conjunct1, THEN mp, OF h1] obtain db' where
    r: "refine_service failing_provider 5 11 ''Shorten'' ''first draft'' ex_backend =
          (Inl (RefinementError ''quota exceeded''), db')"
    and k: "sections db' = sections ex_backend" "provider_calls db' = provider_calls ex_backend + 1"
    by blast
  have r': "refine_service failing_provider 5 11 ''Shorten'' ''first draft'' ex_backend =
       (Inl (RefinementError ''quota exceeded''), ex_backend\<lparr>provider_calls := 3\<rparr>)"
    by (simp add: refine_service_def revise_def failing_provider_def ex_backend_facts Let_def)
  have a: "current (refine (answering (ex_error_response ''error'')) ex_section1 ex_view) = ex_doc
     \<and> length (sent (refine (answering (ex_error_response ''error'')) ex_section1 ex_view)) = 1"
    using t [where net = "answering (ex_error_response ''error'')", THEN conjunct2, THEN conjunct1]
      ex_view_facts e
    by (simp add: answering_def)
  have a2: "alerts (refine (answering (ex_error_response ''error'')) ex_section1 ex_view) =
       [''Quota exceeded'']"
    by (simp add: refine_def refine_try_def fetch_def alert_def answering_def js_or_def lookup_def
        ok_def trim_eval ex_error_response_def ex_view_def ex_section1_def)
  have b: "current (refine offline ex_section1 ex_view) = ex_doc"
    using t [where net = offline, THEN conjunct2, THEN conjunct1] ex_view_facts
    by (simp add: offline_def)
  have b2: "alerts (refine offline ex_section1 ex_view) = [''Refine failed'']"
    by (simp add: refine_def refine_try_def fetch_def alert_def offline_def lookup_def
        trim_eval ex_view_def ex_section1_def)
  have c: "doc (sendRefinement offline (JNum 1) ''Shorten'' ex_editor) = ex_doc"
    using t [where net = offline, THEN conjunct2, THEN conjunct2] ex_editor_facts
    by (simp add: offline_def)
  have c2: "ed_alerts (sendRefinement offline (JNum 1) ''Shorten'' ex_editor) =
       [''Refinement request failed.'']"
    using ex_editor_facts(1)
    by (simp add: sendRefinement_def sendRefinement_try_def ed_alert_def offline_def Let_def
        ex_editor_facts)
  from h1 r' e a a2 b b2 c c2 show ?thesis by (intro conjI) simp_all
qed

subsection \<open>C4: the refinement history is append-only\<close>

text \<open>
  Claim C4 (service modelled from the spec).  Calling \<open>refine\<close> once per element of a list
  of N calls on an existing section, each with a non-empty prompt and each provider call
  succeeding, extends the section's history by exactly N Refinements whose prompts,
  revised texts and creation times are those of the calls, in call order; starting from an
  empty history its length is exactly N.  And for every sequence of operations of the
  services (create, generate, refine, regenerate, feedback, comment; succeeding or not)
  and every section, the history before is a prefix of the history after: no Refinement
  record is ever changed, reordered or removed.
\<close>

theorem refinement_history_append_only:
  "(find_section db sid \<noteq> None \<and> length outs = length calls \<and>
    (\<forall>i < length calls. fst (snd (calls ! i)) \<noteq> [] \<and>
       T (provider_calls db + i) (fst (snd (calls ! i))) (snd (snd (calls ! i))) = Inr (outs ! i))
    \<longrightarrow> (\<exists>new. history (refine_all T sid calls db) sid = history db sid @ new \<and>
               length new = length calls \<and>
               map ref_prompt new = map (\<lambda>c. fst (snd c)) calls \<and>
               map ref_revised_text new = outs \<and>
               map ref_created_at new = map fst calls) \<and>
        (history db sid = [] \<longrightarrow> length (history (refine_all T sid calls db) sid) = length calls))
   \<and> prefix (history db sid) (history (run_ops T rules fresh ops db) sid)"
proof (intro conjI impI)
  assume a: "find_section db sid \<noteq> None \<and> length outs = length calls \<and>
    (\<forall>i < length calls. fst (snd (calls ! i)) \<noteq> [] \<and>
       T (provider_calls db + i) (fst (snd (calls ! i))) (snd (snd (calls ! i))) = Inr (outs ! i))"
  let ?new = "map (\<lambda>i. \<lparr>ref_id = next_id db + i, ref_prompt = fst (snd (calls ! i)),
                     ref_revised_text = outs ! i, ref_created_at = fst (calls ! i)\<rparr>)
               [0..<length calls]"
  from a have h: "history (refine_all T sid calls db) sid = history db sid @ ?new"
    by (intro refine_all_history) simp_all
  have 1: "map ref_prompt ?new = map (\<lambda>c. fst (snd c)) calls"
    by (rule nth_equalityI) simp_all
  have 2: "map ref_revised_text ?new = outs"
    using a by (intro nth_equalityI) simp_all
  have 3: "map ref_created_at ?new = map fst calls"
    by (rule nth_equalityI) simp_all
  show "\<exists>new. history (refine_all T sid calls db) sid = history db sid @ new \<and>
               length new = length calls \<and>
               map ref_prompt new = map (\<lambda>c. fst (snd c)) calls \<and>
               map ref_revised_text new = outs \<and>
               map ref_created_at new = map fst calls"
    apply (rule exI [of _ ?new])
    using h 1 2 3 by simp
  show "length (history (refine_all T sid calls db) sid) = length calls" if "history db sid = []"
    using h that by simp
next
  show "prefix (history db sid) (history (run_ops T rules fresh ops db) sid)"
    by (rule run_ops_prefix)
qed

theorem refinement_history_append_only_witness:
  "find_section ex_backend 11 \<noteq> None
   \<and> history ex_backend 11 = []
   \<and> history (refine_all ex_provider 11 ex_calls ex_backend) 11 =
       [\<lparr>ref_id = 20, ref_prompt = ''Shorten'', ref_revised_text = ''About first draft'',
          ref_created_at = 5\<rparr>,
        \<lparr>ref_id = 21, ref_prompt = ''More formal'',
          ref_revised_text = ''About About first draft'', ref_created_at = 6\<rparr>]
   \<and> prefix (history (refine_all ex_provider 11 ex_calls ex_backend) 11)
       (history (run_ops failing_provider ex_rules ex_fresh
          [OpFeedback 11 True, OpRegenerate 7 11, OpComment 8 11 ''good point'']
          (refine_all ex_provider 11 ex_calls ex_backend)) 11)"
proof -
  have f: "find_section ex_backend 11 \<noteq> None" by (simp add: ex_backend_facts)
  have c: "\<forall>i < length ex_calls. fst (snd (ex_calls ! i)) \<noteq> [] \<and>
       ex_provider (provider_calls ex_backend + i) (fst (snd (ex_calls ! i))) (snd (snd (ex_calls ! i)))
         = Inr ([''About first draft'', ''About About first draft''] ! i)"
    by (simp add: ex_calls_def ex_provider_def less_Suc_eq)
  have l: "length [''About first draft'', ''About About first draft''] = length ex_calls"
    by (simp add: ex_calls_def)
  note t = refinement_history_append_only [where T = ex_provider and db = ex_backend and sid = 11
      and calls = ex_calls and outs = "[''About first draft'', ''About About first draft'']"]
  from t [THEN conjunct1, THEN mp] f l c
  have n: "length (history (refine_all ex_provider 11 ex_calls ex_backend) 11) = length ex_calls"
    by (simp add: ex_backend_facts)
  have h: "history (refine_all ex_provider 11 ex_calls ex_backend) 11 =
       [\<lparr>ref_id = 20, ref_prompt = ''Shorten'', ref_revised_text = ''About first draft'',
          ref_created_at = 5\<rparr>,
        \<lparr>ref_id = 21, ref_prompt = ''More formal'',
          ref_revised_text = ''About About first draft'', ref_created_at = 6\<rparr>]"
    by (simp add: refine_all_def ex_calls_def refine_service_def revise_def update_section_def
        history_def find_section_def ex_backend_def ex_row_def ex_provider_def Let_def)
  have p: "prefix (history (refine_all ex_provider 11 ex_calls ex_backend) 11)
       (history (run_ops failing_provider ex_rules ex_fresh
          [OpFeedback 11 True, OpRegenerate 7 11, OpComment 8 11 ''good point'']
          (refine_all ex_provider 11 ex_calls ex_backend)) 11)"
    using refinement_history_append_only [where db = "refine_all ex_provider 11 ex_calls ex_backend",
        THEN conjunct2] .
  from f h p show ?thesis by (simp add: ex_backend_facts)
qed

subsection \<open>C5: generateDocument creates one section per page\<close>

lemma generate_pages_all:
  assumes "length outs = n"
    and "\<forall>j < n. T (provider_calls db + j) (page_instruction rules p theme (i + j)) p = Inr (outs ! j)"
  shows "generate_pages T rules did p theme i n db =
           (None, db\<lparr>sections := sections db @
                        map (\<lambda>j. new_page rules did p (next_id db + j) (i + j) (outs ! j)) [0..<n],
                     next_id := next_id db + n,
                     provider_calls := provider_calls db + n\<rparr>)"
  using assms
proof (induction n arbitrary: i db outs)
  case 0
  then show ?case by simp
next
  case (Suc n)
  then obtain out rest where outs: "outs = out # rest" and len: "length rest = n"
    by (cases outs) auto
  from Suc.prems(2) [rule_format, of 0] have first:
    "T (provider_calls db) (page_instruction rules p theme i) p = Inr out"
    by (simp add: outs)
  let ?db = "db\<lparr>sections := sections db @ [new_page rules did p (next_id db) i out],
                next_id := next_id db + 1, provider_calls := provider_calls db + 1\<rparr>"
  have later: "\<forall>j < n. T (provider_calls ?db + j) (page_instruction rules p theme (Suc i + j)) p
                 = Inr (rest ! j)"
  proof (intro allI impI)
    fix j assume "j < n"
    with Suc.prems(2) [rule_format, of "Suc j"] show
      "T (provider_calls ?db + j) (page_instruction rules p theme (Suc i + j)) p = Inr (rest ! j)"
      by (simp add: outs)
  qed
  have m: "map (\<lambda>j. new_page rules did p (next_id db + j) (i + j) (outs ! j)) [0..<Suc n] =
           new_page rules did p (next_id db) i out #
           map (\<lambda>j. new_page rules did p (Suc (next_id db + j)) (Suc (i + j)) (rest ! j)) [0..<n]"
    by (simp add: upt_conv_Cons map_Suc_upt [symmetric] outs del: upt_Suc)
  show ?case
    using first Suc.IH [OF len later]
    by (simp add: m del: upt_Suc)
qed

lemma sort_key_sorted: "sorted (map f xs) \<Longrightarrow> sort_key f xs = xs"
  by (rule sort_key_id_if_sorted)

text \<open>
  Claim C5 (service modelled from the spec).  For a page count \<open>k\<close> in 1..50, a non-empty
  prompt and an existing document, when the provider succeeds on each of the \<open>k\<close> page
  instructions, \<open>generateDocument\<close> succeeds, has called the provider exactly \<open>k\<close> times,
  and has added exactly \<open>k\<close> Sections to the store: their positions are 0..k-1 in order,
  each belongs to the document, has the heading derived for its page and the provider's
  text for that page.  If the document had no Sections before, these are its Sections.
\<close>

theorem generateDocument_pages:
  assumes "1 \<le> k" and "k \<le> 50" and "p \<noteq> []" and "find_document db did = Some d"
    and "length outs = nat k"
    and "\<forall>j < nat k. T (provider_calls db + j) (page_instruction rules p theme j) p = Inr (outs ! j)"
  shows "\<exists>doc db' new.
           generateDocument T rules did p theme k db = (Inr (doc, sections_of db' did), db') \<and>
           sections db' = sections db @ new \<and>
           length new = nat k \<and>
           map position new = [0..<nat k] \<and>
           (\<forall>j < nat k. document_id (new ! j) = did \<and>
                         heading (new ! j) = page_heading rules p j \<and>
                         sec_text (new ! j) = outs ! j) \<and>
           provider_calls db' = provider_calls db + nat k \<and>
           ((\<forall>s \<in> set (sections db). document_id s \<noteq> did) \<longrightarrow> sections_of db' did = new)"
proof -
  let ?d = "d\<lparr>gen_prompt := p, gen_theme := theme, gen_pages := k\<rparr>"
  let ?db0 = "db\<lparr>documents := map (\<lambda>x. if doc_id x = did then ?d else x) (documents db)\<rparr>"
  let ?new = "map (\<lambda>j. new_page rules did p (next_id db + j) j (outs ! j)) [0..<nat k]"
  let ?db' = "?db0\<lparr>sections := sections db @ ?new, next_id := next_id db + nat k,
                     provider_calls := provider_calls db + nat k\<rparr>"
  have calls: "\<forall>j < nat k. T (provider_calls ?db0 + j) (page_instruction rules p theme (0 + j)) p
                 = Inr (outs ! j)"
    using assms(6) by simp
  have g: "generate_pages T rules did p theme 0 (nat k) ?db0 = (None, ?db')"
    using generate_pages_all [where T = T and db = ?db0 and i = 0 and did = did, OF assms(5) calls] by simp
  have gd: "generateDocument T rules did p theme k db = (Inr (?d, sections_of ?db' did), ?db')"
    using assms(1,3,4) g by (simp add: generateDocument_def Let_def)
  have pos: "map position ?new = [0..<nat k]"
    by (simp add: new_page_def comp_def map_idI)
  have own: "sections_of ?db' did = ?new" if "\<forall>s \<in> set (sections db). document_id s \<noteq> did"
  proof -
    have "filter (\<lambda>s. document_id s = did) (sections db) = []"
      using that by (simp add: filter_empty_conv)
    moreover have "filter (\<lambda>s. document_id s = did) ?new = ?new"
      by (simp add: new_page_def)
    moreover have "sort_key position ?new = ?new"
      by (rule sort_key_sorted) (simp only: pos sorted_upt)
    ultimately show ?thesis by (simp add: sections_of_def)
  qed
  show ?thesis
    apply (rule exI [of _ ?d], rule exI [of _ ?db'], rule exI [of _ ?new])
    using gd pos own by (simp add: new_page_def)
qed

theorem generateDocument_pages_witness:
  "find_document ex_created 7 = Some ex_document
   \<and> map position (sections (snd (generateDocument ex_provider ex_rules 7 ''AI in education''
        ''formal'' 3 ex_created))) = [0, 1, 2]
   \<and> map heading (sections (snd (generateDocument ex_provider ex_rules 7 ''AI in education''
        ''formal'' 3 ex_created))) =
       [''AI in education 1'', ''AI in education 2'', ''AI in education 3'']
   \<and> provider_calls (snd (generateDocument ex_provider ex_rules 7 ''AI in education''
        ''formal'' 3 ex_created)) = 3"
proof -
  have d: "find_document ex_created 7 = Some ex_document"
    by (simp add: find_document_def ex_created_def ex_document_def)
  have l: "length (replicate 3 ''About AI in education'') = nat 3" by simp
  have c: "\<forall>j < nat 3. ex_provider (provider_calls ex_created + j)
             (page_instruction ex_rules ''AI in education'' ''formal'' j) ''AI in education''
             = Inr (replicate 3 ''About AI in education'' ! j)"
    by (simp add: ex_provider_def)
  from generateDocument_pages [where T = ex_provider and rules = ex_rules and theme = "''formal''",
      of 3 "''AI in education''" ex_created 7 ex_document "replicate 3 ''About AI in education''"]
    d l c
  obtain dc db' new where
    g: "generateDocument ex_provider ex_rules 7 ''AI in education'' ''formal'' 3 ex_created =
          (Inr (dc, sections_of db' 7), db')"
    and s: "sections db' = sections ex_created @ new"
    and n: "length new = nat 3"
    and p: "map position new = [0..<nat 3]"
    and h: "\<forall>j < nat 3. document_id (new ! j) = 7 \<and>
                         heading (new ! j) = page_heading ex_rules ''AI in education'' j \<and>
                         sec_text (new ! j) = replicate 3 ''About AI in education'' ! j"
    and k: "provider_calls db' = provider_calls ex_created + nat 3"
    by auto
  have e: "sections ex_created = []" "provider_calls ex_created = 0"
    by (simp_all add: ex_created_def)
  have u: "[0..<nat 3] = [0, 1, 2]" by (simp add: upt_rec)
  have hd: "map heading new = [''AI in education 1'', ''AI in education 2'', ''AI in education 3'']"
  proof (rule nth_equalityI)
    show "length (map heading new) =
            length [''AI in education 1'', ''AI in education 2'', ''AI in education 3'']"
      using n by simp
    fix i assume "i < length (map heading new)"
    then have "i = 0 \<or> i = 1 \<or> i = 2" using n by auto
    then show "map heading new ! i =
            [''AI in education 1'', ''AI in education 2'', ''AI in education 3''] ! i"
      using h n by (auto simp: ex_rules_def ex_heading_def show_nat.simps)
  qed
  from d g s p k e u hd show ?thesis by simp
qed

subsection \<open>C7: export checks the format, then the document\<close>

lemma parse_format_None: "parse_format fmt = None \<longleftrightarrow> fmt \<notin> {''docx'', ''pptx'', ''pdf''}"
  by (simp add: parse_format_def)

lemma parse_format_Some: "parse_format fmt = Some f \<Longrightarrow> extension f = fmt"
  by (auto simp: parse_format_def split: if_splits)

lemma download_ext_known: "fmt \<in> {''docx'', ''pptx'', ''pdf''} \<Longrightarrow> download_ext fmt = fmt"
  by (auto simp: download_ext_def)

lemma sections_of_sorted: "sorted (map position (sections_of db did))"
  by (simp add: sections_of_def)

lemma sections_of_set:
  "set (sections_of db did) = {s \<in> set (sections db). document_id s = did}"
  by (auto simp: sections_of_def)

text \<open>
  Claim C7.  Service (modelled from the spec): for a format outside docx, pptx, pdf
  \<open>export\<close> fails with a ValidationError whatever the document id (no bytes: the result
  is the error); for a format of the set and an unknown document id it fails with
  NotFoundError; when it succeeds, the bytes are the renderer's output for that format on
  the document's title and its sections' (heading, text) pairs in position order, and the
  extension is the format's.
  Client (from the source): \<open>DownloadBar.download\<close> saves a 2xx response's bytes as
  \<open>document-<id>.<format>\<close> for each of the three formats, and saves nothing, raising one
  alert, when the response is not 2xx.
\<close>

theorem export_checks:
  "(fmt \<notin> {''docx'', ''pptx'', ''pdf''} \<longrightarrow>
      export_service render did fmt db = Inl (ValidationError []))
   \<and> (fmt \<in> {''docx'', ''pptx'', ''pdf''} \<and> find_document db did = None \<longrightarrow>
      export_service render did fmt db = Inl NotFoundError)
   \<and> (export_service render did fmt db = Inr (bytes, ext) \<longrightarrow>
      ext = fmt \<and> fmt \<in> {''docx'', ''pptx'', ''pdf''} \<and>
      (\<exists>f d. parse_format fmt = Some f \<and> find_document db did = Some d \<and>
             render f (title d) (map (\<lambda>s. (heading s, sec_text s)) (sections_of db did))
               = Some bytes) \<and>
      sorted (map position (sections_of db did)) \<and>
      set (sections_of db did) = {s \<in> set (sections db). document_id s = did})
   \<and> (fmt \<in> {''docx'', ''pptx'', ''pdf''} \<and>
      net (export_request documentId fmt) = Resolved res \<and> ok res \<and> blob_body res = Some bytes
        \<longrightarrow> saved (download net documentId fmt st) =
              saved st @ [(''document-'' @ to_string documentId @ ''.'' @ fmt, bytes)]
            \<and> alerts (download net documentId fmt st) = alerts st)
   \<and> (net (export_request documentId fmt) = Resolved res \<and> \<not> ok res
        \<longrightarrow> saved (download net documentId fmt st) = saved st
            \<and> length (alerts (download net documentId fmt st)) = length (alerts st) + 1)"
proof (intro conjI impI)
  assume "fmt \<notin> {''docx'', ''pptx'', ''pdf''}"
  then show "export_service render did fmt db = Inl (ValidationError [])"
    by (simp add: export_service_def parse_format_def)
next
  assume "fmt \<in> {''docx'', ''pptx'', ''pdf''} \<and> find_document db did = None"
  then show "export_service render did fmt db = Inl NotFoundError"
    by (auto simp: export_service_def parse_format_def getDocument_def)
next
  assume a: "export_service render did fmt db = Inr (bytes, ext)"
  then obtain f where f: "parse_format fmt = Some f"
    by (auto simp: export_service_def split: option.splits)
  with a obtain d where d: "find_document db did = Some d"
    by (auto simp: export_service_def getDocument_def split: option.splits)
  from a f d have r: "render f (title d) (map (\<lambda>s. (heading s, sec_text s)) (sections_of db did))
               = Some bytes" and e: "ext = extension f"
    by (auto simp: export_service_def getDocument_def split: option.splits)
  from e f show "ext = fmt" by (simp add: parse_format_Some)
  from f show "fmt \<in> {''docx'', ''pptx'', ''pdf''}"
    using parse_format_None [of fmt] by auto
  from f d r show "\<exists>f d. parse_format fmt = Some f \<and> find_document db did = Some d \<and>
             render f (title d) (map (\<lambda>s. (heading s, sec_text s)) (sections_of db did))
               = Some bytes" by blast
  show "sorted (map position (sections_of db did))" by (rule sections_of_sorted)
  show "set (sections_of db did) = {s \<in> set (sections db). document_id s = did}"
    by (rule sections_of_set)
next
  assume a: "fmt \<in> {''docx'', ''pptx'', ''pdf''} \<and>
      net (export_request documentId fmt) = Resolved res \<and> ok res \<and> blob_body res = Some bytes"
  then have e: "download_ext fmt = fmt" by (simp add: download_ext_known)
  from a e show "saved (download net documentId fmt st) =
              saved st @ [(''document-'' @ to_string documentId @ ''.'' @ fmt, bytes)]"
    by (simp add: download_def fetch_def)
  from a show "alerts (download net documentId fmt st) = alerts st"
    by (simp add: download_def fetch_def)
next
  assume a: "net (export_request documentId fmt) = Resolved res \<and> \<not> ok res"
  then show "saved (download net documentId fmt st) = saved st"
    by (simp add: download_def fetch_def alert_def Let_def split: option.splits sum.splits)
  from a show "length (alerts (download net documentId fmt st)) = length (alerts st) + 1"
    by (simp add: download_def fetch_def alert_def Let_def split: option.splits sum.splits)
qed

theorem export_checks_witness:
  "''xlsx'' \<notin> {''docx'', ''pptx'', ''pdf''}
   \<and> export_service ex_render 7 ''xlsx'' ex_backend = Inl (ValidationError [])
   \<and> find_document ex_backend 9 = None
   \<and> export_service ex_render 9 ''pdf'' ex_backend = Inl NotFoundError
   \<and> export_service ex_render 7 ''pdf'' ex_backend = Inr (''pdf:ReportIntroBody'', ''pdf'')
   \<and> ok ex_file_response
   \<and> saved (download (answering ex_file_response) (JNum 7) ''pdf'' ex_view) =
       [(''document-7.pdf'', ''%PDF'')]
   \<and> \<not> ok (ex_error_response ''error'')
   \<and> saved (download (answering (ex_error_response ''error'')) (JNum 7) ''xlsx'' ex_view) = []"
proof -
  note t = export_checks [where render = ex_render and db = ex_backend and st = ex_view
      and documentId = "JNum 7"]
  have x: "''xlsx'' \<notin> {''docx'', ''pptx'', ''pdf''}" by simp
  have a: "export_service ex_render 7 ''xlsx'' ex_backend = Inl (ValidationError [])"
    using t [where fmt = "''xlsx''" and did = 7, THEN conjunct1] x by simp
  have n: "find_document ex_backend 9 = None"
    by (simp add: find_document_def ex_backend_def ex_document_def)
  have b: "export_service ex_render 9 ''pdf'' ex_backend = Inl NotFoundError"
    using t [where fmt = "''pdf''" and did = 9, THEN conjunct2, THEN conjunct1] n by simp
  have c: "export_service ex_render 7 ''pdf'' ex_backend = Inr (''pdf:ReportIntroBody'', ''pdf'')"
    by (simp add: export_service_def parse_format_def getDocument_def find_document_def
        sections_of_def ex_backend_def ex_document_def ex_row_def)
  have o: "ok ex_file_response" "blob_body ex_file_response = Some ''%PDF''"
    by (simp_all add: ex_file_response_def ok_def)
  have s7: "show_nat 7 = ''7''" by (simp add: show_nat.simps)
  have d: "saved (download (answering ex_file_response) (JNum 7) ''pdf'' ex_view) =
       [(''document-7.pdf'', ''%PDF'')]"
    using t [where fmt = "''pdf''" and net = "answering ex_file_response"
        and res = ex_file_response and bytes = "''%PDF''",
        THEN conjunct2, THEN conjunct2, THEN conjunct2, THEN conjunct1] o
    by (simp add: answering_def s7 ex_view_def)
  have e: "\<not> ok (ex_error_response ''error'')"
    by (simp add: ex_error_response_def ok_def)
  have f: "saved (download (answering (ex_error_response ''error'')) (JNum 7) ''xlsx'' ex_view) = []"
    using t [where fmt = "''xlsx''" and net = "answering (ex_error_response ''error'')"
        and res = "ex_error_response ''error''",
        THEN conjunct2, THEN conjunct2, THEN conjunct2, THEN conjunct2] e
    by (simp add: answering_def ex_view_def)
  from x a n b c o(1) d e f show ?thesis by (intro conjI)
qed

end
